theory Spec2Isabelle
  imports Main "HOL-Library.Word" "HOL-Library.Multiset"
begin

unbundle bit_operations_syntax

section \<open>Bytes, Python errors and the fixed-width packers\<close>

text \<open>
  The tool is Python 2: a byte string is a list of bytes, an integer is unbounded.
  Every exception the modelled code can raise is a value of \<open>py_error\<close>; a
  computation that may raise returns \<open>py_error + 'a\<close>.
\<close>

type_synonym byte = "8 word"
type_synonym bytes = "byte list"

datatype py_error =
  StructError | TypeError | IndexError | KeyError | OverflowError | RuntimeError

definition bind_err :: "py_error + 'a \<Rightarrow> ('a \<Rightarrow> py_error + 'b) \<Rightarrow> py_error + 'b" where
  "bind_err m f = (case m of Inl e \<Rightarrow> Inl e | Inr x \<Rightarrow> f x)"

text \<open>
  \<open>p8\<close>, \<open>p16\<close>, \<open>p32\<close> are the unsigned little-endian packers of the pwn library
  (\<open>struct.pack\<close> with formats \<open><B\<close>, \<open><H\<close>, \<open><I\<close>): a number outside the
  format's range raises \<open>struct.error\<close>. \<open>u32\<close> unpacks exactly four bytes.
\<close>

definition p8 :: "int \<Rightarrow> py_error + bytes" where
  "p8 n = (if 0 \<le> n \<and> n < 256 then Inr [word_of_int n] else Inl StructError)"

definition p16 :: "int \<Rightarrow> py_error + bytes" where
  "p16 n = (if 0 \<le> n \<and> n < 65536
            then Inr [word_of_int n, word_of_int (n div 256)]
            else Inl StructError)"

definition p32 :: "int \<Rightarrow> py_error + bytes" where
  "p32 n = (if 0 \<le> n \<and> n < 4294967296
            then Inr [word_of_int n, word_of_int (n div 256),
                      word_of_int (n div 65536), word_of_int (n div 16777216)]
            else Inl StructError)"


text \<open>Python's slice \<open>xs[i:j]\<close> for \<open>0 \<le> i \<le> j\<close>: it never raises, it truncates.\<close>

definition slice :: "'a list \<Rightarrow> nat \<Rightarrow> nat \<Rightarrow> 'a list" where
  "slice xs i j = take (j - i) (drop i xs)"

text \<open>Python's \<open>xs[i]\<close> for \<open>i \<ge> 0\<close>: IndexError out of range.\<close>

definition index :: "'a list \<Rightarrow> nat \<Rightarrow> py_error + 'a" where
  "index xs i = (if i < length xs then Inr (xs ! i) else Inl IndexError)"

section \<open>HCI frames and the outbound command frame\<close>

text \<open>
  The parsed HCI packet as the send pipeline sees it (\<open>isinstance(hcipkt, hci.HCI_Event)\<close>,
  \<open>event_code\<close>, \<open>data\<close>). The parser lives in the \<open>hci\<close> module; its result is an
  input here.
\<close>

datatype hci_packet =
    HCI_Cmd int bytes
  | HCI_Event (event_code: int) (data: bytes)
  | HCI_Acl int bytes
  | HCI_Sco int bytes

definition HCI_CMD :: int where
  \<comment> \<open>Modelled from the spec: the constant \<open>hci.HCI.HCI_CMD\<close>, the frame type byte
      \<open>0x01\<close> of an HCI command; the \<open>hci\<close> module is not part of the sources at hand.\<close>
  "HCI_CMD = 1"

text \<open>
  Lines 236 to 240 of \<open>_sendThreadFunc\<close>:
  \<^verbatim>\<open>payload = p16(opcode) + p8(len(data)) + data\<close>,
  \<^verbatim>\<open>out = p8(hci.HCI.HCI_CMD) + p16(len(payload)) + payload\<close>.
\<close>

definition build_payload :: "int \<Rightarrow> bytes \<Rightarrow> py_error + bytes" where
  "build_payload opcode dat =
     bind_err (p16 opcode) (\<lambda>op.
     bind_err (p8 (int (length dat))) (\<lambda>plen.
     Inr (op @ plen @ dat)))"

definition build_frame :: "int \<Rightarrow> bytes \<Rightarrow> py_error + bytes" where
  "build_frame opcode dat =
     bind_err (build_payload opcode dat) (\<lambda>payload.
     bind_err (p8 HCI_CMD) (\<lambda>ty.
     bind_err (p16 (int (length payload))) (\<lambda>ln.
     Inr (ty @ ln @ payload))))"

text \<open>The frame the claim describes: type byte, opcode, parameter length, parameters.\<close>

definition claimed_frame :: "int \<Rightarrow> bytes \<Rightarrow> bytes" where
  "claimed_frame opcode dat =
     [1, word_of_int opcode, word_of_int (opcode div 256), word_of_int (int (length dat))] @ dat"

section \<open>Bounded queues\<close>

text \<open>
  Python's \<open>Queue.Queue(maxsize)\<close>: a FIFO whose size is bounded when \<open>maxsize > 0\<close>
  and unbounded otherwise. \<open>full()\<close> is \<open>0 < maxsize == qsize()\<close>; a non-blocking
  \<open>put\<close> raises \<open>Full\<close> (here \<open>None\<close>) on a full queue; a non-blocking \<open>get\<close>
  raises \<open>Empty\<close> (here \<open>None\<close>) on an empty one.
\<close>

record 'a queue =
  maxsize :: int
  items :: "'a list"

definition new_queue :: "int \<Rightarrow> 'a queue" where
  "new_queue n = \<lparr>maxsize = n, items = []\<rparr>"

definition q_full :: "'a queue \<Rightarrow> bool" where
  "q_full q = (0 < maxsize q \<and> int (length (items q)) = maxsize q)"

definition q_put_nowait :: "'a queue \<Rightarrow> 'a \<Rightarrow> 'a queue option" where
  "q_put_nowait q x =
     (if 0 < maxsize q \<and> int (length (items q)) = maxsize q then None
      else Some (q\<lparr>items := items q @ [x]\<rparr>))"

definition q_get_nowait :: "'a queue \<Rightarrow> ('a \<times> 'a queue) option" where
  "q_get_nowait q =
     (case items q of [] \<Rightarrow> None | x # xs \<Rightarrow> Some (x, q\<lparr>items := xs\<rparr>))"

text \<open>
  The flush idiom \<^verbatim>\<open>try: while True: q.get(block=False) except Queue.Empty: pass\<close>:
  one element is removed per round until the queue reports \<open>Empty\<close>.
\<close>

fun flush_items :: "'a list \<Rightarrow> 'a list" where
  "flush_items [] = []"
| "flush_items (x # xs) = flush_items xs"

definition q_flush :: "'a queue \<Rightarrow> 'a queue" where
  "q_flush q = q\<lparr>items := flush_items (items q)\<rparr>"

section \<open>Snoop records and their timestamp\<close>

text \<open>
  A \<open>datetime\<close> is represented by its microseconds since 0001-01-01 00:00:00 of the
  proleptic Gregorian calendar (day ordinal 1), a \<open>timedelta\<close> by its microseconds.
  Python keeps a \<open>timedelta\<close> normalised as days, seconds and microseconds and raises
  \<open>OverflowError\<close> when the days leave \<open>-999999999 .. 999999999\<close>; adding a
  \<open>timedelta\<close> to a \<open>datetime\<close> raises \<open>OverflowError\<close> when the resulting day
  ordinal leaves \<open>1 .. 3652059\<close> (years 1 to 9999).
\<close>

definition us_per_day :: int where
  "us_per_day = 86400000000"

definition timedelta_us :: "int \<Rightarrow> py_error + int" where
  "timedelta_us us =
     (if - 999999999 \<le> us div us_per_day \<and> us div us_per_day \<le> 999999999
      then Inr us else Inl OverflowError)"

definition timedelta_sub :: "int \<Rightarrow> int \<Rightarrow> py_error + int" where
  "timedelta_sub a b = timedelta_us (a - b)"

definition datetime_2000_01_01 :: int where
  \<comment> \<open>\<open>datetime.datetime(2000, 1, 1)\<close>: day ordinal 730120\<close>
  "datetime_2000_01_01 = 730119 * us_per_day"

definition datetime_add :: "int \<Rightarrow> int \<Rightarrow> py_error + int" where
  "datetime_add dt delta =
     (let r = dt + delta
      in if 1 \<le> r div us_per_day + 1 \<and> r div us_per_day + 1 \<le> 3652059
         then Inr r else Inl OverflowError)"

definition time_betw_0_and_2000_ad :: int where
  "time_betw_0_and_2000_ad = 0x00E03AB44A676000"

definition parse_time :: "int \<Rightarrow> py_error + int" where
  "parse_time time =
     bind_err (timedelta_us time) (\<lambda>a.
     bind_err (timedelta_us time_betw_0_and_2000_ad) (\<lambda>b.
     bind_err (timedelta_sub a b) (\<lambda>time_since_2000_epoch.
     datetime_add datetime_2000_01_01 time_since_2000_epoch)))"

text \<open>
  \<^verbatim>\<open>struct.unpack(">IIIIq", record_hdr)\<close>: four big-endian u32 and one big-endian
  signed 64-bit integer, from exactly 24 bytes.
\<close>

definition be_uint :: "bytes \<Rightarrow> int" where
  "be_uint bs = foldl (\<lambda>acc b. acc * 256 + uint b) 0 bs"

definition be_sint64 :: "bytes \<Rightarrow> int" where
  "be_sint64 bs = (if be_uint bs < 2 ^ 63 then be_uint bs else be_uint bs - 2 ^ 64)"

definition unpack_record_hdr :: "bytes \<Rightarrow> py_error + (int \<times> int \<times> int \<times> int \<times> int)" where
  "unpack_record_hdr hdr =
     (if length hdr \<noteq> 24 then Inl StructError
      else Inr (be_uint (slice hdr 0 4), be_uint (slice hdr 4 8), be_uint (slice hdr 8 12),
                be_uint (slice hdr 12 16), be_sint64 (slice hdr 16 24)))"

text \<open>The record tuple \<open>(hcipkt, orig_len, inc_len, flags, drops, parsed_time)\<close>.\<close>

type_synonym snoop_record = "hci_packet \<times> int \<times> int \<times> int \<times> int \<times> int option"

section \<open>The session and the receive pipeline\<close>

text \<open>
  A log line is its level and its text; where the text is formatted from a number,
  the number is kept beside it.
\<close>

datatype log_entry =
    Log_debug string
  | Log_info string
  | Log_warn string
  | Log_warn_num string int
  | Log_warn_num2 string int int

text \<open>
  The flags \<open>running\<close> and \<open>exit_requested\<close> of \<open>BrcmBt\<close> and the log are
  used by every layer: they are the common part of the state records.
\<close>

record flags =
  running :: bool
  exit_requested :: bool
  log :: "log_entry list"

text \<open>
  Where the send thread stands: before \<open>connect\<close> there is none; in its loop it is at
  the top (about to flush its receive queue), past the flush (about to take a task from
  the send queue), or waiting for the Command Complete of the opcode it sent, to be put
  into the rendezvous queue of the call, or blocked in that \<open>put\<close> on a full queue; it
  has left the loop, or an exception ended it.
\<close>

datatype send_pc =
    No_thread
  | At_top
  | At_get_task
  | Waiting int nat
  | Blocked_put nat bytes
  | Terminated
  | Crashed py_error

text \<open>
  The fields of \<open>BrcmBt\<close> the pipelines use. A call of \<open>sendHciCommand\<close> is numbered
  by its position in \<open>calls\<close>; its private \<open>Queue.Queue(1)\<close> is \<open>slots ! k\<close>, and
  \<open>returned\<close> lists the calls that have come back, with what they returned.
  \<open>s_inject\<close> is the list of frames sent on the inject socket.
\<close>

record 'sd session = flags +
  write_btsnooplog :: bool
  btsnooplog_file :: bytes
  recvQueue :: "snoop_record queue"
  sendThreadrecvQueue :: "snoop_record queue"
  sendQueue :: "(int \<times> bytes \<times> nat) queue"
  sendThread :: send_pc
  s_inject :: "bytes list"
  calls :: "(int \<times> bytes) list"
  slots :: "bytes queue list"
  returned :: "(nat \<times> bytes option) list"
  stackDumpReceiver :: 'sd

definition log_add :: "log_entry \<Rightarrow> 'a flags_scheme \<Rightarrow> 'a flags_scheme" where
  "log_add e s = s\<lparr>log := log s @ [e]\<rparr>"

definition sendThread_alive :: "'sd session \<Rightarrow> bool" where
  \<comment> \<open>\<open>self.sendThread != None and self.sendThread.isAlive()\<close>\<close>
  "sendThread_alive s =
     (case sendThread s of
        No_thread \<Rightarrow> False | Terminated \<Rightarrow> False | Crashed e \<Rightarrow> False | _ \<Rightarrow> True)"

datatype loop_ctl = Continue | Break

text \<open>
  Lines 190 to 213 of \<open>_recvThreadFunc\<close>: the record goes to the primary queue, which
  is flushed first when full; to the queue of the send thread when that thread is alive;
  and to the stack dump receiver. \<open>recvPacket_sd\<close> is \<open>StackDumpReceiver.recvPacket\<close>
  of the \<open>hci\<close> module, a parameter.
\<close>

definition enqueue_primary :: "snoop_record \<Rightarrow> 'sd session \<Rightarrow> 'sd session" where
  "enqueue_primary record s =
     (let s1 = (if q_full (recvQueue s)
                then (log_add (Log_debug ''recvThreadFunc: recv queue is full. flushing..'') s)
                       \<lparr>recvQueue := q_flush (recvQueue s)\<rparr>
                else s)
      in case q_put_nowait (recvQueue s1) record of
           Some q \<Rightarrow> s1\<lparr>recvQueue := q\<rparr>
         | None \<Rightarrow> log_add (Log_warn ''recvThreadFunc: recv queue is full. dropping packets..'') s1)"

definition enqueue_secondary :: "snoop_record \<Rightarrow> 'sd session \<Rightarrow> 'sd session" where
  "enqueue_secondary record s =
     (if sendThread_alive s
      then (case q_put_nowait (sendThreadrecvQueue s) record of
              Some q \<Rightarrow> s\<lparr>sendThreadrecvQueue := q\<rparr>
            | None \<Rightarrow> log_add (Log_warn
                ''recvThreadFunc: sendThread recv queue is full. dropping packets..'') s)
      else s)"

definition feed_stackdump ::
  "('sd \<Rightarrow> hci_packet \<Rightarrow> bool \<times> 'sd) \<Rightarrow> snoop_record \<Rightarrow> 'sd session \<Rightarrow> 'sd session" where
  "feed_stackdump recvPacket_sd record s =
     (case recvPacket_sd (stackDumpReceiver s) (fst record) of
        (dump, sd') \<Rightarrow>
          (let s1 = s\<lparr>stackDumpReceiver := sd'\<rparr>
           in if dump
              then (log_add (Log_warn
                      ''recvThreadFunc: The controller send a stack dump. stopping..'') s1)
                     \<lparr>exit_requested := True\<rparr>
              else s1))"

definition distribute ::
  "('sd \<Rightarrow> hci_packet \<Rightarrow> bool \<times> 'sd) \<Rightarrow> snoop_record \<Rightarrow> 'sd session \<Rightarrow> 'sd session" where
  "distribute recvPacket_sd record s =
     feed_stackdump recvPacket_sd record (enqueue_secondary record (enqueue_primary record s))"

text \<open>
  Lines 149 to 213: one round of the receive loop once the two socket loops have
  produced \<open>record_hdr\<close> and \<open>record_data\<close> (what was received before the exit flag,
  a closed socket or the full length ended each loop). \<open>parse_hci_packet\<close> is the
  parser of the \<open>hci\<close> module, a parameter; an exception it raises ends the thread.
\<close>

definition stop_recv :: "string \<Rightarrow> 'sd session \<Rightarrow> 'sd session" where
  "stop_recv msg s =
     (if \<not> exit_requested s then (log_add (Log_warn msg) s)\<lparr>exit_requested := True\<rparr> else s)"

definition write_log_file :: "bytes \<Rightarrow> 'sd session \<Rightarrow> 'sd session" where
  "write_log_file bs s =
     (if write_btsnooplog s then s\<lparr>btsnooplog_file := btsnooplog_file s @ bs\<rparr> else s)"

definition parsed_time_of :: "int \<Rightarrow> py_error + int option" where
  \<comment> \<open>\<^verbatim>\<open>try: parsed_time = self._parse_time(time64)
      except OverflowError: parsed_time = None\<close>\<close>
  "parsed_time_of time64 =
     (case parse_time time64 of
        Inr t \<Rightarrow> Inr (Some t)
      | Inl OverflowError \<Rightarrow> Inr None
      | Inl e \<Rightarrow> Inl e)"

definition recv_record ::
  "(bytes \<Rightarrow> py_error + hci_packet) \<Rightarrow> ('sd \<Rightarrow> hci_packet \<Rightarrow> bool \<times> 'sd) \<Rightarrow>
   bytes \<Rightarrow> bytes \<Rightarrow> 'sd session \<Rightarrow> py_error + (loop_ctl \<times> 'sd session)" where
  "recv_record parse_hci_packet recvPacket_sd record_hdr record_data s =
     (if record_hdr = [] \<or> length record_hdr \<noteq> 24
      then Inr (Break, stop_recv ''recvThreadFunc: Cannot recv record_hdr. stopping.'' s)
      else
        let s1 = write_log_file record_hdr s in
        bind_err (unpack_record_hdr record_hdr) (\<lambda>(orig_len, inc_len, flags, drops, time64).
          if record_data = [] \<or> int (length record_data) \<noteq> inc_len
          then Inr (Break, stop_recv ''recvThreadFunc: Cannot recv data. stopping.'' s1)
          else
            let s2 = write_log_file record_data s1 in
            bind_err (parsed_time_of time64) (\<lambda>parsed_time.
            bind_err (parse_hci_packet record_data) (\<lambda>hcipkt.
              let record = (hcipkt, orig_len, inc_len, flags, drops, parsed_time);
                  s3 = log_add (Log_debug ''Recv'') s2
              in Inr (Continue, distribute recvPacket_sd record s3)))))"

section \<open>The send pipeline\<close>

text \<open>
  \<open>recvPacket\<close> as the send thread runs it (lines 583 to 593): \<open>check_running\<close>
  first. With the exit flag set, \<open>check_running\<close> calls \<open>shutdown\<close>, which joins the
  receive thread and then the send thread itself: joining the current thread raises
  \<open>RuntimeError\<close>. Without a running session the answer is \<open>None\<close>; otherwise the
  thread takes the next record of its own receive queue, or \<open>None\<close> after the timeout.
\<close>

definition recvPacket_sendThread ::
  "'sd session \<Rightarrow> py_error + (snoop_record option \<times> 'sd session)" where
  "recvPacket_sendThread s =
     (if exit_requested s then Inl RuntimeError
      else if \<not> running s
      then Inr (None, log_add (Log_warn ''Not running. call connect() first!'') s)
      else (case q_get_nowait (sendThreadrecvQueue s) of
              None \<Rightarrow> Inr (None, s)
            | Some (r, q) \<Rightarrow> Inr (Some r, s\<lparr>sendThreadrecvQueue := q\<rparr>)))"

text \<open>
  Lines 251 to 255: the record answers the command when it is an event with code
  \<open>0x0e\<close> whose data bytes 1 and 2 are the packed opcode.
\<close>

definition is_command_complete_for :: "int \<Rightarrow> hci_packet \<Rightarrow> bool" where
  "is_command_complete_for opcode hcipkt =
     (case hcipkt of
        HCI_Event code d \<Rightarrow> code = 0x0e \<and> Inr (slice d 1 3) = p16 opcode
      | _ \<Rightarrow> False)"

definition packet_data :: "hci_packet \<Rightarrow> bytes" where
  "packet_data hcipkt = (case hcipkt of HCI_Event code d \<Rightarrow> d | _ \<Rightarrow> [])"

text \<open>
  \<open>queue.put(hcipkt.data)\<close> on the call's \<open>Queue.Queue(1)\<close> blocks while the queue is
  full; the thread then stands at \<open>Blocked_put\<close> and retries.
\<close>

definition put_response :: "nat \<Rightarrow> bytes \<Rightarrow> 'sd session \<Rightarrow> 'sd session" where
  "put_response k d s =
     (if k < length (slots s)
      then (case q_put_nowait (slots s ! k) d of
              Some q \<Rightarrow> s\<lparr>slots := (slots s)[k := q], sendThread := At_top\<rparr>
            | None \<Rightarrow> s\<lparr>sendThread := Blocked_put k d\<rparr>)
      else s\<lparr>sendThread := Blocked_put k d\<rparr>)"

text \<open>
  One step of \<open>_sendThreadFunc\<close> (lines 219 to 257) between two points where another
  thread can act: the loop test and the flush; taking a task, building and sending its
  frame; one round of the inner loop (its test, \<open>recvPacket\<close> with the timeout of half
  a second, and the comparison).
\<close>

definition send_step :: "'sd session \<Rightarrow> 'sd session" where
  "send_step s =
     (case sendThread s of
        At_top \<Rightarrow>
          (if exit_requested s
           then (log_add (Log_debug ''Send Thread terminated.'') s)\<lparr>sendThread := Terminated\<rparr>
           else s\<lparr>sendThreadrecvQueue := q_flush (sendThreadrecvQueue s),
                  sendThread := At_get_task\<rparr>)
      | At_get_task \<Rightarrow>
          (case q_get_nowait (sendQueue s) of
             None \<Rightarrow> s\<lparr>sendThread := At_top\<rparr>
           | Some ((opcode, dat, k), q) \<Rightarrow>
               (case build_frame opcode dat of
                  Inl e \<Rightarrow> s\<lparr>sendQueue := q, sendThread := Crashed e\<rparr>
                | Inr out \<Rightarrow>
                    (log_add (Log_debug ''_sendThreadFunc: Send'') s)
                      \<lparr>sendQueue := q, s_inject := s_inject s @ [out],
                       sendThread := Waiting opcode k\<rparr>))
      | Waiting opcode k \<Rightarrow>
          (if exit_requested s then s\<lparr>sendThread := At_top\<rparr>
           else (case recvPacket_sendThread s of
                   Inl e \<Rightarrow> s\<lparr>sendThread := Crashed e\<rparr>
                 | Inr (None, s1) \<Rightarrow> s1
                 | Inr (Some packet, s1) \<Rightarrow>
                     (if is_command_complete_for opcode (fst packet)
                      then put_response k (packet_data (fst packet)) s1
                      else s1)))
      | Blocked_put k d \<Rightarrow> put_response k d s
      | _ \<Rightarrow> s)"

text \<open>
  \<open>sendHciCommand\<close> (lines 571 to 581) in its two halves. The first creates the
  one-slot queue of the call and puts the task on the send queue; a send queue that
  stays full until the timeout makes the call return \<open>None\<close>. The second is the end of
  \<open>queue.get(timeout=timeout)\<close>: the call returns the payload found in its queue, or
  \<open>None\<close> when the timeout passes with the queue empty.
\<close>

definition call_submit :: "int \<Rightarrow> bytes \<Rightarrow> 'sd session \<Rightarrow> 'sd session" where
  "call_submit opcode dat s =
     (let k = length (calls s);
          s1 = s\<lparr>calls := calls s @ [(opcode, dat)], slots := slots s @ [new_queue 1]\<rparr>
      in case q_put_nowait (sendQueue s1) (opcode, dat, k) of
           Some q \<Rightarrow> s1\<lparr>sendQueue := q\<rparr>
         | None \<Rightarrow> (log_add (Log_warn ''sendHciCommand: send queue is full!'') s1)
                     \<lparr>returned := returned s1 @ [(k, None)]\<rparr>)"

definition call_collect :: "nat \<Rightarrow> 'sd session \<Rightarrow> 'sd session" where
  "call_collect k s =
     (if k < length (slots s) \<and> k \<notin> fst ` set (returned s)
      then (case q_get_nowait (slots s ! k) of
              Some (d, q) \<Rightarrow> s\<lparr>slots := (slots s)[k := q], returned := returned s @ [(k, Some d)]\<rparr>
            | None \<Rightarrow> (log_add (Log_warn ''sendHciCommand: waiting for response timed out!'') s)
                        \<lparr>returned := returned s @ [(k, None)]\<rparr>)
      else s)"

text \<open>
  The threads of a session interleave. A schedule is a list of actions: a caller enters
  \<open>sendHciCommand\<close> or comes back from it, the receive thread distributes a record of
  the snoop stream, the send thread makes a step, a send thread is started, or the
  flags \<open>running\<close> and \<open>exit_requested\<close> are set (by \<open>connect\<close>, \<open>shutdown\<close>, or the
  receive thread).
\<close>

datatype action =
    Call_submit int bytes
  | Call_collect nat
  | Ingest snoop_record
  | Send_step
  | Start_send_thread
  | Set_flags bool bool

definition start_send_thread :: "'sd session \<Rightarrow> 'sd session" where
  "start_send_thread s =
     (if sendThread_alive s then s
      else (log_add (Log_debug ''Send Thread started.'') s)\<lparr>sendThread := At_top\<rparr>)"

fun apply_action ::
  "('sd \<Rightarrow> hci_packet \<Rightarrow> bool \<times> 'sd) \<Rightarrow> 'sd session \<Rightarrow> action \<Rightarrow> 'sd session" where
  "apply_action sd s (Call_submit opcode dat) = call_submit opcode dat s"
| "apply_action sd s (Call_collect k) = call_collect k s"
| "apply_action sd s (Ingest record) = distribute sd record s"
| "apply_action sd s Send_step = send_step s"
| "apply_action sd s Start_send_thread = start_send_thread s"
| "apply_action sd s (Set_flags r e) = s\<lparr>running := r, exit_requested := e\<rparr>"

definition run ::
  "('sd \<Rightarrow> hci_packet \<Rightarrow> bool \<times> 'sd) \<Rightarrow> 'sd session \<Rightarrow> action list \<Rightarrow> 'sd session" where
  "run sd s acts = foldl (apply_action sd) s acts"

fun ingested :: "action list \<Rightarrow> snoop_record list" where
  "ingested [] = []"
| "ingested (Ingest r # acts) = r # ingested acts"
| "ingested (a # acts) = ingested acts"

text \<open>The session as \<open>__init__\<close> leaves it (lines 44 to 67), for a queue size.\<close>

definition init_session :: "int \<Rightarrow> 'sd \<Rightarrow> 'sd session" where
  "init_session queue_size sd0 =
     \<lparr>running = False, exit_requested = False, log = [],
      write_btsnooplog = True, btsnooplog_file = [],
      recvQueue = new_queue queue_size, sendThreadrecvQueue = new_queue queue_size,
      sendQueue = new_queue queue_size, sendThread = No_thread, s_inject = [],
      calls = [], slots = [], returned = [], stackDumpReceiver = sd0\<rparr>"

section \<open>The memory access layer\<close>

text \<open>
  \<open>sendHciCommand\<close> hands a command to the send thread and waits for the answer; what
  comes back depends on the other threads and on the controller. For the memory layer the
  pipeline and the controller together are a parameter: a transition \<open>xport\<close> on a state
  of the controller, which for an opcode and its parameter bytes gives the payload of the
  Command Complete event, a timeout of \<open>queue.get\<close>, or a send queue that stayed full.
  In the last two cases \<open>sendHciCommand\<close> returns \<open>None\<close>. The commands handed to the
  send queue are listed in \<open>commands\<close>, and the calls of the monitor's callback, with
  their arguments \<open>(lmp_packet, sendFromDevice, src_addr, dest_addr)\<close>, in
  \<open>monitorCallback\<close>.
\<close>

datatype reply = Reply bytes | Timed_out | Queue_full

type_synonym 'c transport = "'c \<Rightarrow> int \<Rightarrow> bytes \<Rightarrow> reply \<times> 'c"

type_synonym lmp_callback = "bytes \<times> bool \<times> bytes \<times> bytes"

record 'c host = flags +
  controller :: 'c
  commands :: "(int \<times> bytes) list"
  monitorCallback :: "lmp_callback list"

type_synonym ('a, 'c) outcome = "(py_error + 'a) \<times> 'c host"

definition sendHciCommand ::
  "'c transport \<Rightarrow> int \<Rightarrow> bytes \<Rightarrow> 'c host \<Rightarrow> bytes option \<times> 'c host" where
  "sendHciCommand xport opcode dat s =
     (case xport (controller s) opcode dat of
        (Reply response, c) \<Rightarrow>
          (Some response, s\<lparr>controller := c, commands := commands s @ [(opcode, dat)]\<rparr>)
      | (Timed_out, c) \<Rightarrow>
          (None, (log_add (Log_warn ''sendHciCommand: waiting for response timed out!'') s)
                   \<lparr>controller := c, commands := commands s @ [(opcode, dat)]\<rparr>)
      | (Queue_full, c) \<Rightarrow>
          (None, (log_add (Log_warn ''sendHciCommand: send queue is full!'') s)
                   \<lparr>controller := c\<rparr>))"

text \<open>
  \<open>check_running\<close> (lines 488 to 495), called from a thread that is neither worker:
  with the exit flag set it runs \<open>shutdown\<close>, which joins the workers and clears both
  flags.
\<close>

definition shutdown :: "'a flags_scheme \<Rightarrow> 'a flags_scheme" where
  "shutdown s = (log_add (Log_info ''Shutdown complete.'') s)
                  \<lparr>running := False, exit_requested := False\<rparr>"

definition check_running :: "'a flags_scheme \<Rightarrow> bool \<times> 'a flags_scheme" where
  "check_running s =
     (let s1 = (if exit_requested s then shutdown s else s)
      in if \<not> running s1
         then (False, log_add (Log_warn ''Not running. call connect() first!'') s1)
         else (True, s1))"

text \<open>
  \<open>readMem\<close> (lines 595 to 625) with \<open>progress_log=None\<close>. The loop runs while
  \<open>read_addr < address + length\<close> and advances by the number of data bytes of the
  response, so it need not end: not returning is the value \<open>None\<close>. \<open>response[3]\<close> on
  the \<open>None\<close> of a timeout raises \<open>TypeError\<close>, on a short response \<open>IndexError\<close>.
\<close>

definition read_request :: "int \<Rightarrow> int \<Rightarrow> py_error + bytes" where
  \<comment> \<open>\<open>p32(read_addr) + p8(blocksize)\<close>\<close>
  "read_request read_addr blocksize =
     bind_err (p32 read_addr) (\<lambda>a. bind_err (p8 blocksize) (\<lambda>b. Inr (a @ b)))"

definition clamp_blocksize :: "int \<Rightarrow> int" where
  "clamp_blocksize bytes_left = (if bytes_left > 251 then 251 else bytes_left)"

partial_function (option) readMem_loop ::
  "'c transport \<Rightarrow> int \<Rightarrow> int \<Rightarrow> int \<Rightarrow> int \<Rightarrow> bytes \<Rightarrow> 'c host \<Rightarrow> (bytes, 'c) outcome option"
where
  "readMem_loop xport address len read_addr byte_counter outbuffer s =
     (if read_addr < address + len
      then (case read_request read_addr (clamp_blocksize (len - byte_counter)) of
              Inl e \<Rightarrow> Some (Inl e, s)
            | Inr request \<Rightarrow>
                (case sendHciCommand xport 0xfc4d request s of
                   (None, s1) \<Rightarrow> Some (Inl TypeError, s1)
                 | (Some response, s1) \<Rightarrow>
                     (case index response 3 of
                        Inl e \<Rightarrow> Some (Inl e, s1)
                      | Inr status \<Rightarrow>
                          readMem_loop xport address len
                            (read_addr + int (length (drop 4 response)))
                            (byte_counter + int (length (drop 4 response)))
                            (outbuffer @ drop 4 response)
                            (if status \<noteq> 0
                             then log_add (Log_warn_num
                                    ''readMem: [TODO] Got status != 0 : 0x%02X'' (uint status)) s1
                             else s1))))
      else Some (Inr outbuffer, s))"

definition readMem ::
  "'c transport \<Rightarrow> int \<Rightarrow> int \<Rightarrow> 'c host \<Rightarrow> (bytes option, 'c) outcome option" where
  "readMem xport address len s =
     (case check_running s of
        (False, s1) \<Rightarrow> Some (Inr None, s1)
      | (True, s1) \<Rightarrow>
          (case readMem_loop xport address len address 0 [] s1 of
             None \<Rightarrow> None
           | Some (Inl e, s2) \<Rightarrow> Some (Inl e, s2)
           | Some (Inr outbuffer, s2) \<Rightarrow> Some (Inr (Some outbuffer), s2)))"

text \<open>
  Formatting with \<open>%x\<close> needs a number. \<open>writeMem\<close> and \<open>launchRam\<close> pass
  \<open>response[3]\<close>, a one-character \<open>str\<close>, so building their warning raises
  \<open>TypeError\<close> before \<open>log.warn\<close> is called and before \<open>return False\<close> is reached.
\<close>

definition format_x_of_str :: "byte \<Rightarrow> py_error + string" where
  "format_x_of_str c = Inl TypeError"

definition check_status :: "bytes option \<Rightarrow> 'c host \<Rightarrow> (bool, 'c) outcome" where
  \<comment> \<open>\<^verbatim>\<open>if(response[3] != '\x00'): log.warn("Got error code %x ..." % response[3]);
      return False\<close>; the result is whether the status byte is zero\<close>
  "check_status response s =
     (case response of
        None \<Rightarrow> (Inl TypeError, s)
      | Some r \<Rightarrow>
          (case index r 3 of
             Inl e \<Rightarrow> (Inl e, s)
           | Inr status \<Rightarrow>
               (if status \<noteq> 0
                then (case format_x_of_str status of
                        Inl e \<Rightarrow> (Inl e, s)
                      | Inr msg \<Rightarrow> (Inr False, log_add (Log_warn msg) s))
                else (Inr True, s))))"

text \<open>
  \<open>writeMem\<close> (lines 627 to 651) with \<open>progress_log=None\<close>; the result \<open>None\<close> is
  the \<open>return None\<close> of a session that is not running.
\<close>

definition write_request :: "int \<Rightarrow> bytes \<Rightarrow> py_error + bytes" where
  \<comment> \<open>\<open>p32(write_addr) + data[byte_counter:byte_counter+blocksize]\<close>\<close>
  "write_request write_addr chunk = bind_err (p32 write_addr) (\<lambda>a. Inr (a @ chunk))"

function writeMem_loop ::
  "'c transport \<Rightarrow> bytes \<Rightarrow> int \<Rightarrow> nat \<Rightarrow> 'c host \<Rightarrow> (bool, 'c) outcome" where
  "writeMem_loop xport dat write_addr byte_counter s =
     (if byte_counter < length dat
      then (let blocksize = nat (clamp_blocksize (int (length dat) - int byte_counter))
            in case write_request write_addr (slice dat byte_counter (byte_counter + blocksize)) of
                 Inl e \<Rightarrow> (Inl e, s)
               | Inr request \<Rightarrow>
                   (case sendHciCommand xport 0xfc4c request s of
                      (response, s1) \<Rightarrow>
                        (case check_status response s1 of
                           (Inl e, s2) \<Rightarrow> (Inl e, s2)
                         | (Inr False, s2) \<Rightarrow> (Inr False, s2)
                         | (Inr True, s2) \<Rightarrow>
                             writeMem_loop xport dat (write_addr + int blocksize)
                               (byte_counter + blocksize) s2)))
      else (Inr True, s))"
  by pat_completeness auto
termination
  by (relation "measure (\<lambda>(xport, dat, write_addr, byte_counter, s). length dat - byte_counter)")
     (auto simp: clamp_blocksize_def split: if_splits)

declare writeMem_loop.simps [simp del]

definition writeMem ::
  "'c transport \<Rightarrow> int \<Rightarrow> bytes \<Rightarrow> 'c host \<Rightarrow> (bool option, 'c) outcome" where
  "writeMem xport address dat s =
     (case check_running s of
        (False, s1) \<Rightarrow> (Inr None, s1)
      | (True, s1) \<Rightarrow>
          (case writeMem_loop xport dat address 0 s1 of
             (Inl e, s2) \<Rightarrow> (Inl e, s2)
           | (Inr ok, s2) \<Rightarrow> (Inr (Some ok), s2)))"

text \<open>\<open>launchRam\<close> (lines 653 to 659).\<close>

definition launchRam :: "'c transport \<Rightarrow> int \<Rightarrow> 'c host \<Rightarrow> (bool, 'c) outcome" where
  "launchRam xport address s =
     (case p32 address of
        Inl e \<Rightarrow> (Inl e, s)
      | Inr request \<Rightarrow>
          (case sendHciCommand xport 0xfc4e request s of
             (response, s1) \<Rightarrow> check_status response s1))"

text \<open>
  \<open>patchRom\<close> (lines 661 to 689). The slot is fixed at 113; the results of the three
  \<open>writeMem\<close> calls are not looked at, an exception of one of them ends the call.
\<close>

definition slot :: int where
  "slot = 113"

definition slot_dwords_init :: "int list" where
  "slot_dwords_init = [0xffffffff, 0xffffffff, 0xffffffff, 0x0000ffff, 0x00000000]"

definition target_dword :: nat where
  "target_dword = nat (slot div 32)"

definition target_bit :: nat where
  "target_bit = nat (slot mod 32)"

definition slot_dwords_enabled :: "int list" where
  \<comment> \<open>\<open>slot_dwords[target_dword] |= 0b1 << target_bit\<close>\<close>
  "slot_dwords_enabled =
     slot_dwords_init[target_dword := (slot_dwords_init ! target_dword) OR push_bit target_bit 1]"

definition patchRom :: "'c transport \<Rightarrow> int \<Rightarrow> bytes \<Rightarrow> 'c host \<Rightarrow> (bool, 'c) outcome" where
  "patchRom xport address patch s =
     (if length patch \<noteq> 4
      then (Inr False, log_add (Log_warn ''patchRom: patch must be a 32-bit dword!'') s)
      else
        let s0 = (if (slot_dwords_init ! target_dword) AND push_bit target_bit 1 \<noteq> 0
                  then log_add (Log_warn_num ''Slot %d is already in use. Overwriting...'' slot) s
                  else s)
        in case writeMem xport (0xd0000 + slot * 4) patch s0 of
             (Inl e, s1) \<Rightarrow> (Inl e, s1)
           | (Inr r1, s1) \<Rightarrow>
               (case p32 (drop_bit 2 address) of
                  Inl e \<Rightarrow> (Inl e, s1)
                | Inr target \<Rightarrow>
                    (case writeMem xport (0x310000 + slot * 4) target s1 of
                       (Inl e, s2) \<Rightarrow> (Inl e, s2)
                     | (Inr r2, s2) \<Rightarrow>
                         (case p32 (slot_dwords_enabled ! target_dword) of
                            Inl e \<Rightarrow> (Inl e, s2)
                          | Inr enable \<Rightarrow>
                              (case writeMem xport (0x310204 + int target_dword * 4) enable s2 of
                                 (Inl e, s3) \<Rightarrow> (Inl e, s3)
                               | (Inr r3, s3) \<Rightarrow> (Inr True, s3))))))"

section \<open>The LMP monitor\<close>


definition DATA_BASE_ADDRESS :: int where
  "DATA_BASE_ADDRESS = 0xd7700"























section \<open>Example inputs\<close>

text \<open>
  Concrete sessions, records and controllers on which the theorems below are
  instantiated.
\<close>

definition no_dump :: "unit \<Rightarrow> hci_packet \<Rightarrow> bool \<times> unit" where
  \<comment> \<open>a stack dump receiver that never sees a stack dump\<close>
  "no_dump sd p = (False, sd)"

definition parse_event :: "bytes \<Rightarrow> py_error + hci_packet" where
  \<comment> \<open>a parser for event frames: type byte, event code, length, data\<close>
  "parse_event d =
     (case d of t # c # l # rest \<Rightarrow> Inr (HCI_Event (uint c) rest) | _ \<Rightarrow> Inl IndexError)"

definition rec_a :: snoop_record where
  "rec_a = (HCI_Event 0x0e [1, 0x4d, 0xfc, 0], 7, 7, 3, 0, None)"

definition rec_b :: snoop_record where
  "rec_b = (HCI_Event 0x13 [1, 2], 5, 5, 3, 0, None)"

definition full_session :: "unit session" where
  \<comment> \<open>queue size 1, both receive queues hold one record, the send thread is alive\<close>
  "full_session =
     (init_session 1 ())\<lparr>recvQueue := \<lparr>maxsize = 1, items = [rec_a]\<rparr>,
        sendThreadrecvQueue := \<lparr>maxsize = 1, items = [rec_a]\<rparr>, sendThread := At_top\<rparr>"

definition hdr_year0 :: bytes where
  \<comment> \<open>a record header with lengths 7, flags 3, no drops and \<open>time64 = 0\<close>\<close>
  "hdr_year0 = [0,0,0,7, 0,0,0,7, 0,0,0,3, 0,0,0,0, 0,0,0,0,0,0,0,0]"

definition event_bytes :: bytes where
  "event_bytes = [0x04, 0x0e, 0x04, 0x01, 0x4d, 0xfc, 0x00]"

text \<open>
  The bytes of a number that fits 32 bits, least significant first, and the reading of
  such bytes: what a controller does with the address of a request.
\<close>

definition le32 :: "int \<Rightarrow> bytes" where
  "le32 n = [word_of_int n, word_of_int (n div 256),
             word_of_int (n div 65536), word_of_int (n div 16777216)]"

definition le_uint :: "bytes \<Rightarrow> int" where
  "le_uint bs = foldr (\<lambda>b acc. uint b + 256 * acc) bs 0"

text \<open>
  The chunks the chunking law speaks of: the start address and size of each read of at
  most 251 bytes that covers \<open>len\<close> bytes from \<open>address\<close>.
\<close>

function chunks :: "int \<Rightarrow> int \<Rightarrow> (int \<times> int) list" where
  "chunks address len =
     (if len \<le> 0 then []
      else (address, min 251 len) # chunks (address + min 251 len) (len - min 251 len))"
  by pat_completeness auto
termination
  by (relation "measure (\<lambda>(address, len). nat len)") auto

declare chunks.simps [simp del]

definition read_command :: "int \<times> int \<Rightarrow> int \<times> bytes" where
  "read_command c = (0xfc4d, le32 (fst c) @ [word_of_int (snd c)])"

definition write_command :: "int \<Rightarrow> bytes \<Rightarrow> int \<times> bytes" where
  "write_command address dat = (0xfc4c, le32 address @ dat)"

text \<open>
  A transport on which every read of \<open>n\<close> bytes, \<open>0 < n \<le> 251\<close>, is answered with
  status 0 and a data block of \<open>n\<close> bytes; one on which every write is answered with
  status 0; one on which every answer to such a read has at least one byte after the four
  header bytes; and one on which every answer to a read is the four header bytes alone.
\<close>

definition full_blocks :: "'c transport \<Rightarrow> bool" where
  "full_blocks xport =
     (\<forall>c a n. 0 < n \<and> n \<le> 251 \<longrightarrow>
        (\<exists>h0 h1 h2 d c'. xport c 0xfc4d (le32 a @ [word_of_int n]) = (Reply ([h0, h1, h2, 0] @ d), c')
            \<and> int (length d) = n))"

definition acks_writes :: "'c transport \<Rightarrow> bool" where
  "acks_writes xport =
     (\<forall>c p. \<exists>h0 h1 h2 rest c'. xport c 0xfc4c p = (Reply ([h0, h1, h2, 0] @ rest), c'))"

definition some_data :: "'c transport \<Rightarrow> bool" where
  "some_data xport =
     (\<forall>c a n r c'. 0 < n \<and> n \<le> 251 \<and> xport c 0xfc4d (le32 a @ [word_of_int n]) = (Reply r, c')
        \<longrightarrow> 4 < length r)"

definition empty_replies :: "'c transport \<Rightarrow> bool" where
  "empty_replies xport =
     (\<forall>c p. \<exists>h0 h1 h2 h3 c'. xport c 0xfc4d p = (Reply [h0, h1, h2, h3], c'))"

text \<open>
  A controller that is a plain byte memory: a read command returns the bytes at the
  address, a write command stores them, every command completes with status 0.
\<close>

definition store :: "(int \<Rightarrow> byte) \<Rightarrow> int \<Rightarrow> bytes \<Rightarrow> (int \<Rightarrow> byte)" where
  "store mem a bs = (\<lambda>x. if a \<le> x \<and> x < a + int (length bs) then bs ! nat (x - a) else mem x)"

definition ram_xport :: "(int \<Rightarrow> byte) transport" where
  "ram_xport mem opcode dat =
     (if opcode = 0xfc4d
      then (Reply ([0x01, 0x4d, 0xfc, 0x00]
                   @ map (\<lambda>i. mem (le_uint (take 4 dat) + int i)) [0 ..< unat (last dat)]), mem)
      else if opcode = 0xfc4c
      then (Reply [0x01, 0x4c, 0xfc, 0x00], store mem (le_uint (take 4 dat)) (drop 4 dat))
      else (Reply [0x01, word_of_int opcode, word_of_int (opcode div 256), 0x00], mem))"

text \<open>A controller that rejects every command with status \<open>0x12\<close> and no data.\<close>

definition reject_xport :: "unit transport" where
  "reject_xport c opcode dat =
     (Reply [0x01, word_of_int opcode, word_of_int (opcode div 256), 0x12], c)"

text \<open>The memory layer of a connected session, for a controller state.\<close>

definition running_host :: "'c \<Rightarrow> 'c host" where
  "running_host c =
     \<lparr>running = True, exit_requested = False, log = [],
      controller = c, commands = [], monitorCallback = []\<rparr>"

definition zero_mem :: "int \<Rightarrow> byte" where
  "zero_mem a = 0"

text \<open>
  A capture ring in controller memory: the counter at its base is 33, the entry at
  position \<open>p\<close> carries the sequence number \<open>p\<close> from the first lap, except positions
  0 and 1, which carry 32 (sent by the device, high bit set) and 33. Every entry is for
  connection 1 and LMP opcode 3. \<open>torn_mem\<close> is the same memory after the firmware has
  written the counter 34 and before it has written the entry at position 2.
\<close>

definition entry_bytes :: "int \<Rightarrow> byte \<Rightarrow> byte \<Rightarrow> bytes" where
  "entry_bytes tag conn opcode =
     le32 tag @ [0, 0, conn, 0, push_bit 1 opcode, 0xAA, 0xBB,
                 0, 0, 0, 0, 0, 0, 0, 0, 0, 0, 0, 0, 0, 0, 0, 0, 0, 0, 0, 0, 0]"

definition ring_tag :: "int \<Rightarrow> int" where
  "ring_tag p = (if p = 0 then 0x80000020 else if p = 1 then 33 else p)"

definition ring_mem :: "int \<Rightarrow> byte" where
  "ring_mem a =
     (let off = a - DATA_BASE_ADDRESS
      in if 0 \<le> off \<and> off < 4 then le32 33 ! nat off
         else if 4 \<le> off \<and> off < 1028
         then entry_bytes (ring_tag ((off - 4) div 32)) 1 3 ! nat ((off - 4) mod 32)
         else 0)"





text \<open>
  Notions for the correlation of commands and answers. A record answers an opcode with
  the payload \<open>d\<close> when it is a Command Complete event with data \<open>d\<close> whose bytes 1
  and 2 are the packed opcode. A payload is correlated with call \<open>k\<close> when some record
  of the snoop stream answers the opcode of that call with it. \<open>pipeline_inv\<close> is the
  invariant of the pipeline over the records \<open>H\<close> distributed so far: every call has
  its one-slot queue; what a slot holds or a call has returned is correlated with the
  call; a call that is still on the send queue or being waited for has an empty slot and
  is nowhere else; the send thread is not blocked on a slot.
\<close>

definition answers :: "int \<Rightarrow> bytes \<Rightarrow> snoop_record \<Rightarrow> bool" where
  "answers opcode d r = (fst r = HCI_Event 0x0e d \<and> Inr (slice d 1 3) = p16 opcode)"

definition correlated :: "snoop_record set \<Rightarrow> (int \<times> bytes) list \<Rightarrow> nat \<Rightarrow> bytes \<Rightarrow> bool" where
  "correlated H cs k d = (k < length cs \<and> (\<exists>r\<in>H. answers (fst (cs ! k)) d r))"

definition task_id :: "int \<times> bytes \<times> nat \<Rightarrow> nat" where
  "task_id t = snd (snd t)"

definition pc_ok ::
  "(int \<times> bytes) list \<Rightarrow> bytes queue list \<Rightarrow> (int \<times> bytes \<times> nat) list \<Rightarrow> send_pc \<Rightarrow> bool" where
  "pc_ok cs sl sq pc =
     (case pc of
        Waiting opcode k \<Rightarrow>
          k < length cs \<and> fst (cs ! k) = opcode \<and> items (sl ! k) = [] \<and> k \<notin> task_id ` set sq
      | Blocked_put k d \<Rightarrow> False
      | _ \<Rightarrow> True)"

definition inv_core ::
  "snoop_record set \<Rightarrow> (int \<times> bytes) list \<Rightarrow> bytes queue list \<Rightarrow> (nat \<times> bytes option) list \<Rightarrow>
   (int \<times> bytes \<times> nat) list \<Rightarrow> send_pc \<Rightarrow> snoop_record list \<Rightarrow> bool" where
  "inv_core H cs sl ret sq pc rq =
     (length sl = length cs
      \<and> (\<forall>k<length sl. maxsize (sl ! k) = 1 \<and> length (items (sl ! k)) \<le> 1
             \<and> (\<forall>d\<in>set (items (sl ! k)). correlated H cs k d))
      \<and> (\<forall>k d. (k, Some d) \<in> set ret \<longrightarrow> correlated H cs k d)
      \<and> (\<forall>t\<in>set sq. task_id t < length cs \<and> fst (cs ! task_id t) = fst t
             \<and> items (sl ! task_id t) = [])
      \<and> distinct (map task_id sq)
      \<and> pc_ok cs sl sq pc
      \<and> set rq \<subseteq> H)"

definition pipeline_inv :: "snoop_record set \<Rightarrow> 'sd session \<Rightarrow> bool" where
  "pipeline_inv H s =
     inv_core H (calls s) (slots s) (returned s) (items (sendQueue s)) (sendThread s)
       (items (sendThreadrecvQueue s))"

text \<open>
  A schedule for one call: the send thread is started, a caller submits a read of four
  bytes at \<open>0x200000\<close>, the thread flushes, takes the task and sends the frame; the snoop
  stream brings an unrelated event, a Command Complete for another opcode, and the
  Command Complete of the read; the thread looks at the three records; the caller comes
  back.
\<close>

definition rec_other :: snoop_record where
  "rec_other = (HCI_Event 0x0e [1, 0x03, 0x0c, 0], 7, 7, 3, 0, None)"

definition rec_read :: snoop_record where
  "rec_read = (HCI_Event 0x0e [1, 0x4d, 0xfc, 0, 0xDE, 0xAD, 0xBE, 0xEF], 11, 11, 3, 0, None)"

definition one_call :: "action list" where
  "one_call =
     [Start_send_thread, Set_flags True False, Call_submit 0xfc4d [0x00, 0x00, 0x20, 0x00, 0x04],
      Send_step, Send_step, Ingest rec_b, Ingest rec_other, Ingest rec_read,
      Send_step, Send_step, Send_step, Call_collect 0]"

section \<open>Inject wire format\<close>

text \<open>
  C3, as stated, fails: the frame written to the inject socket is not the type byte
  directly followed by the opcode. For opcode \<open>0xFC4E\<close> and the four parameter bytes
  of address \<open>0xD7500\<close> the code sends \<open>01 07 00 4E FC 04 00 75 0D 00\<close>.
\<close>

theorem C3_counterexample:
  "build_frame 0xFC4E [0x00, 0x75, 0x0D, 0x00]
     = Inr [0x01, 0x07, 0x00, 0x4E, 0xFC, 0x04, 0x00, 0x75, 0x0D, 0x00]
   \<and> build_frame 0xFC4E [0x00, 0x75, 0x0D, 0x00]
     \<noteq> Inr (claimed_frame 0xFC4E [0x00, 0x75, 0x0D, 0x00])"
  by (simp add: build_frame_def build_payload_def claimed_frame_def bind_err_def
      p8_def p16_def HCI_CMD_def)

text \<open>
  C3, amended: for an opcode that fits 16 bits and at most 255 parameter bytes, the frame
  is the byte \<open>0x01\<close>, the length of the rest (3 plus the number of parameter bytes) as a
  little-endian u16, the opcode as a little-endian u16, the one-byte parameter length and
  the parameter bytes, in that order and nothing else.
\<close>

theorem C3_inject_frame:
  assumes "0 \<le> opcode" and "opcode < 65536" and "length dat < 256"
  shows "build_frame opcode dat
         = Inr ([0x01]
                @ [word_of_int (3 + int (length dat)), word_of_int ((3 + int (length dat)) div 256)]
                @ [word_of_int opcode, word_of_int (opcode div 256)]
                @ [word_of_int (int (length dat))] @ dat)"
proof -
  have pl: "build_payload opcode dat
            = Inr ([word_of_int opcode, word_of_int (opcode div 256)]
                   @ [word_of_int (int (length dat))] @ dat)"
    using assms by (simp add: build_payload_def bind_err_def p16_def p8_def)
  have ln: "p16 (3 + int (length dat))
            = Inr [word_of_int (3 + int (length dat)), word_of_int ((3 + int (length dat)) div 256)]"
    using assms by (simp add: p16_def)
  show ?thesis
    using pl ln by (simp add: build_frame_def bind_err_def p8_def HCI_CMD_def)
qed

theorem C3_inject_frame_witness:
  "build_frame 0xFC4D [0x00, 0x00, 0x20, 0x00, 0xFB]
   = Inr [0x01, 0x08, 0x00, 0x4D, 0xFC, 0x05, 0x00, 0x00, 0x20, 0x00, 0xFB]"
  using C3_inject_frame [of "0xFC4D" "[0x00, 0x00, 0x20, 0x00, 0xFB]"] by simp

section \<open>Receive pipeline: queue overflow and timestamps\<close>

lemma flush_items_Nil: "flush_items xs = []"
  by (induction xs) simp_all

lemma enqueue_primary_full:
  assumes "q_full (recvQueue s)"
  shows "items (recvQueue (enqueue_primary record s)) = [record]"
  using assms
  by (simp add: enqueue_primary_def q_full_def q_put_nowait_def q_flush_def flush_items_Nil
      log_add_def Let_def)

lemma enqueue_primary_last:
  "items (recvQueue (enqueue_primary record s)) \<noteq> []
   \<and> last (items (recvQueue (enqueue_primary record s))) = record"
  by (auto simp: enqueue_primary_def q_full_def q_put_nowait_def q_flush_def flush_items_Nil
      log_add_def Let_def)

lemma enqueue_primary_other:
  "sendThreadrecvQueue (enqueue_primary record s) = sendThreadrecvQueue s"
  "sendThread (enqueue_primary record s) = sendThread s"
  by (simp_all add: enqueue_primary_def log_add_def Let_def split: option.splits)

lemma enqueue_secondary_full:
  assumes "sendThread_alive s" and "q_full (sendThreadrecvQueue s)"
  shows "sendThreadrecvQueue (enqueue_secondary record s) = sendThreadrecvQueue s"
    and "Log_warn ''recvThreadFunc: sendThread recv queue is full. dropping packets..''
           \<in> set (log (enqueue_secondary record s))"
  using assms
  by (simp_all add: enqueue_secondary_def q_full_def q_put_nowait_def log_add_def)

lemma enqueue_secondary_recvQueue:
  "recvQueue (enqueue_secondary record s) = recvQueue s"
  by (simp add: enqueue_secondary_def log_add_def split: option.splits)

lemma feed_stackdump_queues:
  "recvQueue (feed_stackdump sd record s) = recvQueue s"
  "sendThreadrecvQueue (feed_stackdump sd record s) = sendThreadrecvQueue s"
  "set (log s) \<subseteq> set (log (feed_stackdump sd record s))"
  by (auto simp: feed_stackdump_def log_add_def Let_def split: prod.splits)

lemma distribute_last:
  "items (recvQueue (distribute sd record s)) \<noteq> []
   \<and> last (items (recvQueue (distribute sd record s))) = record"
  by (simp add: distribute_def feed_stackdump_queues enqueue_secondary_recvQueue
      enqueue_primary_last)

lemma enqueue_primary_flags:
  "exit_requested (enqueue_primary record s) = exit_requested s"
  "stackDumpReceiver (enqueue_primary record s) = stackDumpReceiver s"
  by (simp_all add: enqueue_primary_def log_add_def Let_def split: option.splits)

lemma enqueue_secondary_flags:
  "exit_requested (enqueue_secondary record s) = exit_requested s"
  "stackDumpReceiver (enqueue_secondary record s) = stackDumpReceiver s"
  by (simp_all add: enqueue_secondary_def log_add_def split: option.splits)

lemma feed_stackdump_exit:
  "exit_requested (feed_stackdump sd record s)
   = (exit_requested s \<or> fst (sd (stackDumpReceiver s) (fst record)))"
  by (cases "sd (stackDumpReceiver s) (fst record)")
     (simp add: feed_stackdump_def log_add_def Let_def)

lemma distribute_exit:
  "exit_requested (distribute sd record s)
   = (exit_requested s \<or> fst (sd (stackDumpReceiver s) (fst record)))"
  by (simp add: distribute_def feed_stackdump_exit enqueue_secondary_flags
      enqueue_primary_flags)

text \<open>
  C8: when the primary queue is full as a record is distributed, the queue is emptied
  and then holds exactly the new record. When the record is offered to the queue of the
  send thread (that thread is alive) and that queue is full, the queue keeps its
  contents, the record is dropped, and the warning is logged.
\<close>

theorem C8_queue_overflow:
  "(q_full (recvQueue s) \<longrightarrow> items (recvQueue (distribute sd record s)) = [record])
   \<and> (sendThread_alive s \<and> q_full (sendThreadrecvQueue s) \<longrightarrow>
        sendThreadrecvQueue (distribute sd record s) = sendThreadrecvQueue s
        \<and> Log_warn ''recvThreadFunc: sendThread recv queue is full. dropping packets..''
             \<in> set (log (distribute sd record s)))"
proof (intro conjI impI)
  assume "q_full (recvQueue s)"
  then show "items (recvQueue (distribute sd record s)) = [record]"
    by (simp add: distribute_def feed_stackdump_queues enqueue_secondary_recvQueue
        enqueue_primary_full)
next
  assume a: "sendThread_alive s \<and> q_full (sendThreadrecvQueue s)"
  let ?s1 = "enqueue_primary record s"
  have alive: "sendThread_alive ?s1"
    using a by (simp add: sendThread_alive_def enqueue_primary_other)
  have full: "q_full (sendThreadrecvQueue ?s1)"
    using a by (simp add: enqueue_primary_other)
  show "sendThreadrecvQueue (distribute sd record s) = sendThreadrecvQueue s"
    using enqueue_secondary_full(1) [OF alive full]
    by (simp add: distribute_def feed_stackdump_queues enqueue_primary_other)
  show "Log_warn ''recvThreadFunc: sendThread recv queue is full. dropping packets..''
          \<in> set (log (distribute sd record s))"
    using enqueue_secondary_full(2) [OF alive full] feed_stackdump_queues(3)
    unfolding distribute_def by blast
qed

theorem C8_queue_overflow_witness:
  "q_full (recvQueue full_session) \<and> sendThread_alive full_session
   \<and> q_full (sendThreadrecvQueue full_session)
   \<and> items (recvQueue (distribute no_dump rec_b full_session)) = [rec_b]
   \<and> items (sendThreadrecvQueue (distribute no_dump rec_b full_session)) = [rec_a]
   \<and> Log_warn ''recvThreadFunc: sendThread recv queue is full. dropping packets..''
        \<in> set (log (distribute no_dump rec_b full_session))"
proof -
  have h: "q_full (recvQueue full_session) \<and> sendThread_alive full_session
     \<and> q_full (sendThreadrecvQueue full_session)"
    by (simp add: full_session_def init_session_def q_full_def sendThread_alive_def)
  have "items (sendThreadrecvQueue full_session) = [rec_a]"
    by (simp add: full_session_def)
  then show ?thesis
    using h C8_queue_overflow [of full_session no_dump rec_b] by simp
qed

lemma parse_time_error: "parse_time t = Inl e \<Longrightarrow> e = OverflowError"
  by (auto simp: parse_time_def bind_err_def timedelta_us_def timedelta_sub_def
      datetime_add_def Let_def split: if_splits sum.splits)

lemma parsed_time_of_overflow:
  "parse_time t = Inl OverflowError \<Longrightarrow> parsed_time_of t = Inr None"
  by (simp add: parsed_time_of_def)

lemma unpack_hdr_year0: "unpack_record_hdr hdr_year0 = Inr (7, 7, 3, 0, 0)"
  by (simp add: unpack_record_hdr_def hdr_year0_def slice_def be_uint_def be_sint64_def)

lemma parse_time_0: "parse_time 0 = Inl OverflowError"
  by (simp add: parse_time_def bind_err_def timedelta_us_def timedelta_sub_def
      datetime_add_def Let_def us_per_day_def time_betw_0_and_2000_ad_def
      datetime_2000_01_01_def)

text \<open>
  C9: a record that has been received completely and whose \<open>time64\<close> makes
  \<open>_parse_time\<close> raise \<open>OverflowError\<close> is parsed and put on the primary queue with
  the timestamp \<open>None\<close>; the round of the receive loop ends normally (no exception, no
  \<open>break\<close>), and the exit flag is set only if it was set before or the record is a
  stack dump.
\<close>

theorem C9_timestamp_overflow:
  assumes hdr: "unpack_record_hdr record_hdr = Inr (orig_len, inc_len, flgs, drops, time64)"
    and ovf: "parse_time time64 = Inl OverflowError"
    and dat: "record_data \<noteq> []" "int (length record_data) = inc_len"
    and pkt: "parse_hci_packet record_data = Inr hcipkt"
  shows "\<exists>s'. recv_record parse_hci_packet sd record_hdr record_data s = Inr (Continue, s')
           \<and> items (recvQueue s') \<noteq> []
           \<and> last (items (recvQueue s')) = (hcipkt, orig_len, inc_len, flgs, drops, None)
           \<and> exit_requested s'
               = (exit_requested s \<or> fst (sd (stackDumpReceiver s) hcipkt))"
proof -
  have len: "length record_hdr = 24"
    using hdr by (simp add: unpack_record_hdr_def split: if_splits)
  let ?rcd = "(hcipkt, orig_len, inc_len, flgs, drops, None :: int option)"
  let ?s3 = "log_add (Log_debug ''Recv'')
               (write_log_file record_data (write_log_file record_hdr s))"
  have run: "recv_record parse_hci_packet sd record_hdr record_data s
             = Inr (Continue, distribute sd ?rcd ?s3)"
    using len hdr dat pkt parsed_time_of_overflow [OF ovf]
    by (auto simp: recv_record_def bind_err_def Let_def)
  have ex: "exit_requested ?s3 = exit_requested s"
    and sdr: "stackDumpReceiver ?s3 = stackDumpReceiver s"
    by (simp_all add: log_add_def write_log_file_def)
  show ?thesis
    using run distribute_last [of sd ?rcd ?s3] distribute_exit [of sd ?rcd ?s3] ex sdr
    by simp
qed

theorem C9_timestamp_overflow_witness:
  "\<exists>s'. recv_record parse_event no_dump hdr_year0 event_bytes (init_session 1000 ())
           = Inr (Continue, s')
      \<and> items (recvQueue s') \<noteq> []
      \<and> last (items (recvQueue s'))
          = (HCI_Event 0x0e [0x01, 0x4d, 0xfc, 0x00], 7, 7, 3, 0, None)
      \<and> exit_requested s' = False"
proof -
  have p: "parse_event event_bytes = Inr (HCI_Event 0x0e [0x01, 0x4d, 0xfc, 0x00])"
    by (simp add: parse_event_def event_bytes_def)
  have d: "event_bytes \<noteq> []" "int (length event_bytes) = 7"
    by (simp_all add: event_bytes_def)
  show ?thesis
    using C9_timestamp_overflow [of hdr_year0 7 7 3 0 0 event_bytes parse_event
        "HCI_Event 0x0e [0x01, 0x4d, 0xfc, 0x00]" no_dump "init_session 1000 ()"]
      unpack_hdr_year0 parse_time_0 d p
    by (simp add: init_session_def no_dump_def)
qed

section \<open>Memory access layer: chunked reads\<close>

lemma p32_le32: "0 \<le> n \<Longrightarrow> n < 4294967296 \<Longrightarrow> p32 n = Inr (le32 n)"
  by (simp add: p32_def le32_def)

lemma p32_Inr: "p32 n = Inr bs \<Longrightarrow> bs = le32 n"
  by (simp add: p32_def le32_def split: if_splits)

lemma read_request_ok:
  "0 \<le> a \<Longrightarrow> a < 4294967296 \<Longrightarrow> 0 \<le> b \<Longrightarrow> b < 256 \<Longrightarrow>
   read_request a b = Inr (le32 a @ [word_of_int b])"
  by (simp add: read_request_def bind_err_def p32_le32 p8_def)

lemma read_request_Inr:
  "read_request a b = Inr request \<Longrightarrow> request = le32 a @ [word_of_int b] \<and> 0 \<le> b"
  by (auto simp: read_request_def bind_err_def p8_def dest: p32_Inr split: sum.splits if_splits)

lemma sendHciCommand_Some:
  assumes "sendHciCommand xport opcode dat s = (Some r, s1)"
  shows "\<exists>c. xport (controller s) opcode dat = (Reply r, c)
           \<and> s1 = s\<lparr>controller := c, commands := commands s @ [(opcode, dat)]\<rparr>"
  using assms
  by (cases "xport (controller s) opcode dat")
     (auto simp: sendHciCommand_def split: reply.splits)

lemma readMem_loop_terminates:
  assumes good: "some_data xport"
  shows "read_addr = address + bc \<Longrightarrow>
         readMem_loop xport address len read_addr bc ob s \<noteq> None"
proof (induction "nat (address + len - read_addr)" arbitrary: read_addr bc ob s rule: less_induct)
  case less
  show ?case
  proof (cases "read_addr < address + len")
    case False
    then show ?thesis by (subst readMem_loop.simps) simp
  next
    case True
    show ?thesis
    proof (cases "read_request read_addr (clamp_blocksize (len - bc))")
      case (Inl e)
      then show ?thesis using True by (subst readMem_loop.simps) simp
    next
      case (Inr request)
      show ?thesis
      proof (cases "sendHciCommand xport 0xfc4d request s")
        case (Pair r s1)
        show ?thesis
        proof (cases r)
          case None
          then show ?thesis using True Inr Pair by (subst readMem_loop.simps) simp
        next
          case (Some response)
          let ?b = "clamp_blocksize (len - bc)"
          have b: "0 < ?b \<and> ?b \<le> 251"
            using True less.prems by (simp add: clamp_blocksize_def)
          have rq: "request = le32 read_addr @ [word_of_int ?b]"
            using read_request_Inr [OF Inr] by simp
          from sendHciCommand_Some [OF Pair [unfolded Some]]
          obtain c where "xport (controller s) 0xfc4d request = (Reply response, c)" by blast
          with good b rq have long: "4 < length response"
            unfolding some_data_def by blast
          then have idx: "index response 3 = Inr (response ! 3)"
            by (simp add: index_def)
          let ?n = "int (length (drop 4 response))"
          have pos: "0 < ?n" using long by simp
          have m: "nat (address + len - (read_addr + ?n)) < nat (address + len - read_addr)"
            using True pos by linarith
          have inv: "read_addr + ?n = address + (bc + ?n)" using less.prems by simp
          from less.hyps [OF m inv]
          show ?thesis
            using True Inr Pair Some idx by (subst readMem_loop.simps) simp
        qed
      qed
    qed
  qed
qed

lemma readMem_terminates:
  assumes "some_data xport"
  shows "readMem xport address len s \<noteq> None"
proof (cases "check_running s")
  case (Pair ok s1)
  show ?thesis
  proof (cases ok)
    case False
    then show ?thesis using Pair by (simp add: readMem_def)
  next
    case True
    obtain r s2 where "readMem_loop xport address len address 0 [] s1 = Some (r, s2)"
      using readMem_loop_terminates [OF assms, of address address 0 len "[]" s1] by auto
    then show ?thesis using Pair True by (cases r) (simp_all add: readMem_def)
  qed
qed

lemma readMem_loop_no_progress:
  assumes "read_addr < address + len"
    and "read_request read_addr (clamp_blocksize (len - bc)) = Inr request"
    and "sendHciCommand xport 0xfc4d request s = (Some response, s1)"
    and "length response = 4"
  shows "readMem_loop xport address len read_addr bc ob s
         = readMem_loop xport address len read_addr bc ob
             (if response ! 3 \<noteq> 0
              then log_add (Log_warn_num ''readMem: [TODO] Got status != 0 : 0x%02X''
                              (uint (response ! 3))) s1
              else s1)"
  using assms by (subst readMem_loop.simps) (simp add: index_def)

lemma readMem_loop_stuck:
  assumes run: "readMem_loop xport address len read_addr bc ob s = Some y"
  shows "empty_replies xport \<longrightarrow>
         \<not> (read_addr < address + len
            \<and> (\<exists>request. read_request read_addr (clamp_blocksize (len - bc)) = Inr request))"
proof (rule readMem_loop.raw_induct
    [where P = "\<lambda>xport address len read_addr bc ob s y. empty_replies xport \<longrightarrow>
         \<not> (read_addr < address + len
            \<and> (\<exists>request. read_request read_addr (clamp_blocksize (len - bc)) = Inr request))",
     OF _ run])
  fix f :: "'a transport \<Rightarrow> int \<Rightarrow> int \<Rightarrow> int \<Rightarrow> int \<Rightarrow> bytes \<Rightarrow> 'a host \<Rightarrow> (bytes, 'a) outcome option"
  fix xport :: "'a transport" and address len read_addr bc :: int and ob :: bytes
    and s :: "'a host" and y :: "(bytes, 'a) outcome"
  assume IH: "\<And>xport address len read_addr bc ob s y.
      f xport address len read_addr bc ob s = Some y \<Longrightarrow>
      empty_replies xport \<longrightarrow>
         \<not> (read_addr < address + len
            \<and> (\<exists>request. read_request read_addr (clamp_blocksize (len - bc)) = Inr request))"
  assume body: "(if read_addr < address + len
      then case read_request read_addr (clamp_blocksize (len - bc)) of
           Inl e \<Rightarrow> Some (Inl e, s)
           | Inr request \<Rightarrow>
               (case sendHciCommand xport 0xfc4d request s of
               (None, s1) \<Rightarrow> Some (Inl TypeError, s1)
               | (Some response, s1) \<Rightarrow>
                   (case index response 3 of Inl e \<Rightarrow> Some (Inl e, s1)
                   | Inr status \<Rightarrow>
                       f xport address len
                        (read_addr + int (length (drop 4 response)))
                        (bc + int (length (drop 4 response)))
                        (ob @ drop 4 response)
                        (if status \<noteq> 0
                         then log_add
                               (Log_warn_num
                                 ''readMem: [TODO] Got status != 0 : 0x%02X''
                                 (uint status))
                               s1
                         else s1)))
      else Some (Inr ob, s)) = Some y"
  show "empty_replies xport \<longrightarrow>
         \<not> (read_addr < address + len
            \<and> (\<exists>request. read_request read_addr (clamp_blocksize (len - bc)) = Inr request))"
  proof (intro impI notI)
    assume er: "empty_replies xport"
    assume "read_addr < address + len
            \<and> (\<exists>request. read_request read_addr (clamp_blocksize (len - bc)) = Inr request)"
    then obtain request where c: "read_addr < address + len"
      and rq: "read_request read_addr (clamp_blocksize (len - bc)) = Inr request" by blast
    from er obtain h0 h1 h2 h3 c' where
      x: "xport (controller s) 0xfc4d request = (Reply [h0, h1, h2, h3], c')"
      unfolding empty_replies_def by blast
    let ?s1 = "s\<lparr>controller := c', commands := commands s @ [(0xfc4d, request)]\<rparr>"
    let ?s2 = "if h3 \<noteq> 0
               then log_add (Log_warn_num ''readMem: [TODO] Got status != 0 : 0x%02X'' (uint h3)) ?s1
               else ?s1"
    have send: "sendHciCommand xport 0xfc4d request s = (Some [h0, h1, h2, h3], ?s1)"
      using x by (simp add: sendHciCommand_def)
    have "f xport address len read_addr bc ob ?s2 = Some y"
      using body c rq send by (simp add: index_def)
    from IH [OF this] er c rq show False by blast
  qed
qed

lemma readMem_diverges:
  assumes "empty_replies xport" and "running s" and "\<not> exit_requested s"
    and "0 < len" and "0 \<le> address" and "address < 4294967296"
  shows "readMem xport address len s = None"
proof -
  have cr: "check_running s = (True, s)"
    using assms by (simp add: check_running_def)
  have b: "0 \<le> clamp_blocksize len \<and> clamp_blocksize len < 256"
    using assms by (simp add: clamp_blocksize_def)
  have rq: "read_request address (clamp_blocksize (len - 0))
            = Inr (le32 address @ [word_of_int (clamp_blocksize len)])"
    using assms b by (simp add: read_request_ok)
  have "readMem_loop xport address len address 0 [] s = None"
  proof (cases "readMem_loop xport address len address 0 [] s")
    case None
    then show ?thesis .
  next
    case (Some y)
    from readMem_loop_stuck [OF Some] assms rq show ?thesis by auto
  qed
  then show ?thesis using cr by (simp add: readMem_def)
qed


lemma chunks_length: "0 \<le> len \<Longrightarrow> int (length (chunks address len)) = (len + 250) div 251"
proof (induction address len rule: chunks.induct)
  case (1 address len)
  show ?case
  proof (cases "len \<le> 0")
    case True
    with "1.prems" have "len = 0" by simp
    then show ?thesis by (subst chunks.simps) simp
  next
    case False
    then have ih: "int (length (chunks (address + min 251 len) (len - min 251 len)))
                   = (len - min 251 len + 250) div 251"
      using "1.IH" by simp
    show ?thesis
    proof (cases "len \<le> 251")
      case True
      then show ?thesis using False ih by (subst chunks.simps) simp
    next
      case big: False
      then have "min 251 len = 251" by simp
      then show ?thesis using False ih by (subst chunks.simps) simp
    qed
  qed
qed

lemma chunks_sizes: "(a, b) \<in> set (chunks address len) \<Longrightarrow> 0 < b \<and> b \<le> 251"
proof (induction address len rule: chunks.induct)
  case (1 address len)
  show ?case
  proof (cases "len \<le> 0")
    case True
    then show ?thesis using "1.prems" by (subst (asm) chunks.simps) simp
  next
    case False
    from "1.prems" have "(a, b) = (address, min 251 len)
        \<or> (a, b) \<in> set (chunks (address + min 251 len) (len - min 251 len))"
      using False by (subst (asm) chunks.simps) simp
    then show ?thesis using "1.IH" False by auto
  qed
qed

lemma readMem_loop_chunks:
  assumes fb: "full_blocks xport"
  shows "0 \<le> n \<Longrightarrow> 0 \<le> read_addr \<Longrightarrow> read_addr + n \<le> 4294967296 \<Longrightarrow>
         read_addr = address + bc \<Longrightarrow> n = len - bc \<Longrightarrow>
         \<exists>buf s'. readMem_loop xport address len read_addr bc ob s = Some (Inr (ob @ buf), s')
           \<and> int (length buf) = n
           \<and> commands s' = commands s @ map read_command (chunks read_addr n)
           \<and> flags.truncate s' = flags.truncate s"
proof (induction "nat n" arbitrary: n read_addr bc ob s rule: less_induct)
  case less
  show ?case
  proof (cases "n = 0")
    case True
    then have "\<not> read_addr < address + len" using less.prems by simp
    then have "readMem_loop xport address len read_addr bc ob s = Some (Inr ob, s)"
      by (subst readMem_loop.simps) simp
    moreover have "chunks read_addr n = []" using True by (subst chunks.simps) simp
    ultimately show ?thesis using True by simp
  next
    case False
    then have npos: "0 < n" using less.prems by simp
    let ?b = "min 251 n"
    have cond: "read_addr < address + len" using npos less.prems by simp
    have clamp: "clamp_blocksize (len - bc) = ?b"
      using less.prems by (simp add: clamp_blocksize_def min_def)
    have req: "read_request read_addr ?b = Inr (le32 read_addr @ [word_of_int ?b])"
      using npos less.prems by (intro read_request_ok) auto
    from fb npos obtain h0 h1 h2 d c' where
      x: "xport (controller s) 0xfc4d (le32 read_addr @ [word_of_int ?b])
            = (Reply ([h0, h1, h2, 0] @ d), c')"
      and ld: "int (length d) = ?b"
      unfolding full_blocks_def
      by (metis min.cobounded1 min_less_iff_conj zero_less_numeral)
    let ?s1 = "s\<lparr>controller := c',
                  commands := commands s @ [(0xfc4d, le32 read_addr @ [word_of_int ?b])]\<rparr>"
    have send: "sendHciCommand xport 0xfc4d (le32 read_addr @ [word_of_int ?b]) s
                = (Some ([h0, h1, h2, 0] @ d), ?s1)"
      using x by (simp add: sendHciCommand_def)
    have step: "readMem_loop xport address len read_addr bc ob s
                = readMem_loop xport address len (read_addr + ?b) (bc + ?b) (ob @ d) ?s1"
      using cond clamp req send ld
      by (subst readMem_loop.simps) (simp add: index_def)
    have "nat (n - ?b) < nat n" using npos by simp
    from less.hyps [OF this, of "read_addr + ?b" "bc + ?b" "ob @ d" ?s1]
    obtain buf s' where
      r: "readMem_loop xport address len (read_addr + ?b) (bc + ?b) (ob @ d) ?s1
            = Some (Inr ((ob @ d) @ buf), s')"
      and lb: "int (length buf) = n - ?b"
      and cs: "commands s' = commands ?s1 @ map read_command (chunks (read_addr + ?b) (n - ?b))"
      and lg: "flags.truncate s' = flags.truncate ?s1"
      using npos less.prems by auto
    have ch: "chunks read_addr n = (read_addr, ?b) # chunks (read_addr + ?b) (n - ?b)"
      using npos by (subst chunks.simps) simp
    have "readMem_loop xport address len read_addr bc ob s = Some (Inr (ob @ (d @ buf)), s')"
      using step r by simp
    moreover have "int (length (d @ buf)) = n" using ld lb by simp
    moreover have "commands s' = commands s @ map read_command (chunks read_addr n)"
      using cs ch by (simp add: read_command_def)
    moreover have "flags.truncate s' = flags.truncate s" using lg by (simp add: flags.truncate_def)
    ultimately show ?thesis by blast
  qed
qed

lemma readMem_full_blocks:
  assumes "running s" and "\<not> exit_requested s" and "0 \<le> len" and "0 \<le> address"
    and "address + len \<le> 4294967296" and "full_blocks xport"
  shows "\<exists>buf s'. readMem xport address len s = Some (Inr (Some buf), s')
           \<and> int (length buf) = len
           \<and> commands s' = commands s @ map read_command (chunks address len)
           \<and> flags.truncate s' = flags.truncate s"
proof -
  have cr: "check_running s = (True, s)"
    using assms by (simp add: check_running_def)
  from readMem_loop_chunks [OF assms(6), of len address address 0 len "[]" s] assms
  obtain buf s' where "readMem_loop xport address len address 0 [] s = Some (Inr buf, s')"
    and "int (length buf) = len"
    and "commands s' = commands s @ map read_command (chunks address len)"
    and "flags.truncate s' = flags.truncate s"
    by auto
  then show ?thesis using cr by (simp add: readMem_def)
qed

text \<open>
  C4, amended: on a running session, for an address \<open>a \<ge> 0\<close> and a length \<open>n > 0\<close>
  with \<open>a + n \<le> 2^32\<close>, when every chunk is answered with status 0 and a full data
  block, \<open>readMem\<close> issues exactly the read commands of \<open>chunks a n\<close>, that is
  \<open>\<lceil>n / 251\<rceil>\<close> commands of at most 251 bytes each, and returns exactly \<open>n\<close> bytes.
  For \<open>readMem(0x200000, 300)\<close> these are two commands, of 251 and 49 bytes.
\<close>

theorem C4_chunking:
  assumes "running s" and "\<not> exit_requested s" and "0 < len" and "0 \<le> address"
    and "address + len \<le> 4294967296" and "full_blocks xport"
  shows "\<exists>buf s'. readMem xport address len s = Some (Inr (Some buf), s')
           \<and> int (length buf) = len
           \<and> commands s' = commands s @ map read_command (chunks address len)
           \<and> int (length (chunks address len)) = (len + 250) div 251
           \<and> list_all (\<lambda>c. 0 < snd c \<and> snd c \<le> 251) (chunks address len)"
proof -
  from readMem_full_blocks [of s len address xport] assms
  obtain buf s' where "readMem xport address len s = Some (Inr (Some buf), s')"
    and "int (length buf) = len"
    and "commands s' = commands s @ map read_command (chunks address len)"
    by auto
  moreover have "int (length (chunks address len)) = (len + 250) div 251"
    using assms by (simp add: chunks_length)
  moreover have "list_all (\<lambda>c. 0 < snd c \<and> snd c \<le> 251) (chunks address len)"
    unfolding list_all_iff using chunks_sizes by (metis prod.collapse)
  ultimately show ?thesis by blast
qed

lemma uint_byte_of_int: "0 \<le> n \<Longrightarrow> n < 256 \<Longrightarrow> uint (word_of_int n :: byte) = n"
  by (simp add: unsigned_of_int take_bit_int_eq_self)

lemma full_blocks_ram: "full_blocks ram_xport"
  unfolding full_blocks_def
proof (intro allI impI)
  fix c :: "int \<Rightarrow> byte" and a n :: int
  assume n: "0 < n \<and> n \<le> 251"
  let ?d = "map (\<lambda>i. c (le_uint (take 4 (le32 a @ [word_of_int n])) + int i))
              [0 ..< unat (word_of_int n :: byte)]"
  have "ram_xport c 0xfc4d (le32 a @ [word_of_int n]) = (Reply ([0x01, 0x4d, 0xfc, 0] @ ?d), c)"
    by (simp add: ram_xport_def)
  moreover have "int (length ?d) = n"
    using n by (simp add: uint_byte_of_int)
  ultimately show "\<exists>h0 h1 h2 d c'.
      ram_xport c 0xfc4d (le32 a @ [word_of_int n]) = (Reply ([h0, h1, h2, 0] @ d), c')
      \<and> int (length d) = n"
    by blast
qed

lemma chunks_300: "chunks 0x200000 300 = [(0x200000, 251), (0x2000FB, 49)]"
  by (simp add: chunks.simps)

theorem C4_chunking_witness:
  "\<exists>buf s'. readMem ram_xport 0x200000 300 (running_host zero_mem) = Some (Inr (Some buf), s')
     \<and> length buf = 300
     \<and> commands s' = [(0xfc4d, [0x00, 0x00, 0x20, 0x00, 0xFB]),
                       (0xfc4d, [0xFB, 0x00, 0x20, 0x00, 0x31])]
     \<and> length (chunks 0x200000 300) = 2"
proof -
  have r: "running (running_host zero_mem)" "\<not> exit_requested (running_host zero_mem)"
    "commands (running_host zero_mem) = []"
    by (simp_all add: running_host_def)
  have c: "map read_command (chunks 0x200000 300)
           = [(0xfc4d, [0x00, 0x00, 0x20, 0x00, 0xFB]), (0xfc4d, [0xFB, 0x00, 0x20, 0x00, 0x31])]"
    by (simp add: chunks_300 read_command_def le32_def)
  from C4_chunking [of "running_host zero_mem" 300 "0x200000" ram_xport] r full_blocks_ram
  show ?thesis
    unfolding c by (simp add: chunks_300)
qed

text \<open>
  C4, as stated for every address, fails where a chunk starts beyond the 32-bit range:
  for \<open>readMem(0xFFFFFFFF, 252)\<close> on a controller that answers every read in full,
  the first chunk of 251 bytes is read, and packing the address \<open>0x1000000FA\<close> of the
  second raises \<open>struct.error\<close>: one command instead of two, and no buffer.
\<close>

theorem C4_counterexample:
  "full_blocks ram_xport
   \<and> readMem ram_xport 0xFFFFFFFF 252 (running_host zero_mem)
     = Some (Inl StructError,
             (running_host zero_mem)\<lparr>commands := [(0xfc4d, [0xFF, 0xFF, 0xFF, 0xFF, 0xFB])]\<rparr>)"
proof -
  have "readMem ram_xport 0xFFFFFFFF 252 (running_host zero_mem)
     = Some (Inl StructError,
             (running_host zero_mem)\<lparr>commands := [(0xfc4d, [0xFF, 0xFF, 0xFF, 0xFF, 0xFB])]\<rparr>)"
    by (simp add: readMem_def check_running_def running_host_def readMem_loop.simps
      read_request_def clamp_blocksize_def bind_err_def p32_def p8_def sendHciCommand_def
      ram_xport_def index_def)
  then show ?thesis using full_blocks_ram by simp
qed

section \<open>Memory access layer: termination, status bytes and ROM patches\<close>

lemma unat_byte_of_int: "0 \<le> n \<Longrightarrow> n < 256 \<Longrightarrow> unat (word_of_int n :: byte) = nat n"
  using uint_byte_of_int [of n] by (simp add: unat_eq_nat_uint)

lemma some_data_ram: "some_data ram_xport"
  unfolding some_data_def
  by (auto simp: ram_xport_def unat_byte_of_int)

lemma empty_replies_reject: "empty_replies reject_xport"
  unfolding empty_replies_def by (simp add: reject_xport_def)

text \<open>
  C10: for every address and every length, \<open>readMem\<close> returns (a buffer, \<open>None\<close> for
  a session that is not running, or an exception) when every answer to a chunk request
  has at least one data byte after its four header bytes. The loop advances by the
  number of data bytes of the answer: after an answer of four bytes the loop is where it
  was, with the same address, counter and buffer, so it sends the same request again;
  and on a transport that answers every read with the four header bytes alone a read
  of \<open>n > 0\<close> bytes never returns.
\<close>

theorem C10_readMem_termination:
  "(some_data xport \<longrightarrow> readMem xport address len s \<noteq> None)
   \<and> (read_addr < address + len
        \<and> read_request read_addr (clamp_blocksize (len - bc)) = Inr request
        \<and> sendHciCommand xport 0xfc4d request s = (Some response, s1)
        \<and> length response = 4
      \<longrightarrow> readMem_loop xport address len read_addr bc ob s
          = readMem_loop xport address len read_addr bc ob
              (if response ! 3 \<noteq> 0
               then log_add (Log_warn_num ''readMem: [TODO] Got status != 0 : 0x%02X''
                               (uint (response ! 3))) s1
               else s1))
   \<and> (empty_replies xport \<and> running s \<and> \<not> exit_requested s
        \<and> 0 < len \<and> 0 \<le> address \<and> address < 4294967296
      \<longrightarrow> readMem xport address len s = None)"
  using readMem_terminates [of xport address len s]
    readMem_loop_no_progress [of read_addr address len bc request xport s response s1 ob]
    readMem_diverges [of xport s len address]
  by blast

theorem C10_readMem_termination_witness:
  "some_data ram_xport
   \<and> readMem ram_xport 0x200000 300 (running_host zero_mem) \<noteq> None
   \<and> empty_replies reject_xport
   \<and> readMem reject_xport 0x200000 300 (running_host ()) = None
   \<and> sendHciCommand reject_xport 0xfc4d [0x00, 0x00, 0x20, 0x00, 0xFB] (running_host ())
       = (Some [0x01, 0x4d, 0xfc, 0x12],
          (running_host ())\<lparr>commands := [(0xfc4d, [0x00, 0x00, 0x20, 0x00, 0xFB])]\<rparr>)
   \<and> readMem_loop reject_xport 0x200000 300 0x200000 0 [] (running_host ())
       = readMem_loop reject_xport 0x200000 300 0x200000 0 []
           (log_add (Log_warn_num ''readMem: [TODO] Got status != 0 : 0x%02X'' 0x12)
              ((running_host ())\<lparr>commands := [(0xfc4d, [0x00, 0x00, 0x20, 0x00, 0xFB])]\<rparr>))"
proof -
  have rq: "read_request 0x200000 (clamp_blocksize (300 - 0)) = Inr [0x00, 0x00, 0x20, 0x00, 0xFB]"
    by (simp add: read_request_def clamp_blocksize_def bind_err_def p32_def p8_def)
  have send: "sendHciCommand reject_xport 0xfc4d [0x00, 0x00, 0x20, 0x00, 0xFB] (running_host ())
       = (Some [0x01, 0x4d, 0xfc, 0x12],
          (running_host ())\<lparr>commands := [(0xfc4d, [0x00, 0x00, 0x20, 0x00, 0xFB])]\<rparr>)"
    by (simp add: sendHciCommand_def reject_xport_def running_host_def)
  have r: "running (running_host ())" "\<not> exit_requested (running_host ())"
    by (simp_all add: running_host_def)
  have a: "readMem ram_xport 0x200000 300 (running_host zero_mem) \<noteq> None"
    using C10_readMem_termination [of ram_xport "0x200000" 300 "running_host zero_mem"]
      some_data_ram by blast
  have b: "readMem reject_xport 0x200000 300 (running_host ()) = None"
    using C10_readMem_termination [of reject_xport "0x200000" 300 "running_host ()"]
      empty_replies_reject r by simp
  have c: "readMem_loop reject_xport 0x200000 300 0x200000 0 [] (running_host ())
       = readMem_loop reject_xport 0x200000 300 0x200000 0 []
           (log_add (Log_warn_num ''readMem: [TODO] Got status != 0 : 0x%02X'' 0x12)
              ((running_host ())\<lparr>commands := [(0xfc4d, [0x00, 0x00, 0x20, 0x00, 0xFB])]\<rparr>))"
    using C10_readMem_termination [of reject_xport "0x200000" 300 "running_host ()"
        "0x200000" 0 "[0x00, 0x00, 0x20, 0x00, 0xFB]" "[0x01, 0x4d, 0xfc, 0x12]"
        "(running_host ())\<lparr>commands := [(0xfc4d, [0x00, 0x00, 0x20, 0x00, 0xFB])]\<rparr>" "[]"]
      rq send by simp
  show ?thesis using a b c send some_data_ram empty_replies_reject by simp
qed

lemma readMem_loop_nonzero_status:
  assumes "read_addr < address + len"
    and "read_request read_addr (clamp_blocksize (len - bc)) = Inr request"
    and "sendHciCommand xport 0xfc4d request s = (Some response, s1)"
    and "3 < length response" and "response ! 3 \<noteq> 0"
  shows "readMem_loop xport address len read_addr bc ob s
         = readMem_loop xport address len
             (read_addr + int (length (drop 4 response)))
             (bc + int (length (drop 4 response)))
             (ob @ drop 4 response)
             (log_add (Log_warn_num ''readMem: [TODO] Got status != 0 : 0x%02X''
                         (uint (response ! 3))) s1)"
  using assms by (subst readMem_loop.simps) (simp add: index_def)

lemma check_status_never_False: "fst (check_status response s) \<noteq> Inr False"
  by (simp add: check_status_def format_x_of_str_def split: option.splits sum.splits)

lemma launchRam_never_False: "fst (launchRam xport address s) \<noteq> Inr False"
  by (auto simp: launchRam_def check_status_never_False split: sum.splits prod.splits)

lemma writeMem_loop_never_False: "fst (writeMem_loop xport dat write_addr bc s) \<noteq> Inr False"
proof (induction xport dat write_addr bc s rule: writeMem_loop.induct)
  case (1 xport dat write_addr byte_counter s)
  show ?case
  proof (cases "byte_counter < length dat")
    case False
    then show ?thesis by (subst writeMem_loop.simps) simp
  next
    case True
    let ?bs = "nat (clamp_blocksize (int (length dat) - int byte_counter))"
    show ?thesis
    proof (cases "write_request write_addr (slice dat byte_counter (byte_counter + ?bs))")
      case (Inl e)
      then show ?thesis using True by (subst writeMem_loop.simps) (simp add: Let_def)
    next
      case (Inr request)
      obtain response s1 where snd: "sendHciCommand xport 0xfc4c request s = (response, s1)"
        by (cases "sendHciCommand xport 0xfc4c request s")
      obtain r s2 where cs: "check_status response s1 = (r, s2)"
        by (cases "check_status response s1")
      have nf: "r \<noteq> Inr False"
        using check_status_never_False [of response s1] cs by simp
      show ?thesis
      proof (cases r)
        case (Inl e)
        then show ?thesis using True Inr snd cs
          by (subst writeMem_loop.simps) (simp add: Let_def)
      next
        case ok: (Inr b)
        with nf have b: "b = True" by simp
        have "fst (writeMem_loop xport dat (write_addr + int ?bs) (byte_counter + ?bs) s2)
              \<noteq> Inr False"
          using "1.IH" [OF True refl Inr snd [symmetric] cs [symmetric] ok b]
          by simp
        then show ?thesis using True Inr snd cs ok b
          by (subst writeMem_loop.simps) (simp add: Let_def)
      qed
    qed
  qed
qed


lemma writeMem_never_False: "fst (writeMem xport address dat s) \<noteq> Inr (Some False)"
proof (cases "check_running s")
  case (Pair ok s1)
  show ?thesis
  proof (cases ok)
    case False
    then show ?thesis using Pair by (simp add: writeMem_def)
  next
    case True
    obtain r s2 where w: "writeMem_loop xport dat address 0 s1 = (r, s2)"
      by (cases "writeMem_loop xport dat address 0 s1")
    with writeMem_loop_never_False [of xport dat address 0 s1] have "r \<noteq> Inr False" by simp
    then show ?thesis using Pair True w by (cases r) (auto simp: writeMem_def)
  qed
qed

text \<open>
  C6 names the policy the code aims at, and the code misses it in \<open>writeMem\<close> and
  \<open>launchRam\<close>: on a non-zero status byte both stop, but with the \<open>TypeError\<close> of
  the \<open>%x\<close> format of their warning, not with \<open>return False\<close>; neither ever returns
  \<open>False\<close>. \<open>readMem\<close> does what the claim says (\<open>readMem_loop_nonzero_status\<close>).
  Here a controller rejects every command with status \<open>0x12\<close>: a write of 300 bytes
  stops after its first chunk, a launch after its command, both with \<open>TypeError\<close>.
\<close>

theorem C6_nonzero_status_raises:
  "writeMem reject_xport 0xd0000 (replicate 300 0x41) (running_host ())
     = (Inl TypeError,
        (running_host ())\<lparr>commands := [(0xfc4c, [0x00, 0x00, 0x0D, 0x00] @ replicate 251 0x41)]\<rparr>)
   \<and> launchRam reject_xport 0xd7500 (running_host ())
     = (Inl TypeError, (running_host ())\<lparr>commands := [(0xfc4e, [0x00, 0x75, 0x0D, 0x00])]\<rparr>)"
proof -
  have w: "writeMem reject_xport 0xd0000 (replicate 300 0x41) (running_host ())
     = (Inl TypeError,
        (running_host ())\<lparr>commands := [(0xfc4c, [0x00, 0x00, 0x0D, 0x00] @ replicate 251 0x41)]\<rparr>)"
    by (simp add: writeMem_def check_running_def running_host_def writeMem_loop.simps
        write_request_def clamp_blocksize_def bind_err_def p32_def sendHciCommand_def
        reject_xport_def check_status_def index_def format_x_of_str_def slice_def)
  have l: "launchRam reject_xport 0xd7500 (running_host ())
     = (Inl TypeError, (running_host ())\<lparr>commands := [(0xfc4e, [0x00, 0x75, 0x0D, 0x00])]\<rparr>)"
    by (simp add: launchRam_def running_host_def p32_def sendHciCommand_def
        reject_xport_def check_status_def index_def format_x_of_str_def)
  show ?thesis using w l by simp
qed

lemma writeMem_one_chunk:
  assumes run: "running s" "\<not> exit_requested s"
    and len: "0 < length dat" "length dat \<le> 251"
    and addr: "0 \<le> address" "address < 4294967296"
    and ack: "acks_writes xport"
  shows "\<exists>s'. writeMem xport address dat s = (Inr (Some True), s')
           \<and> commands s' = commands s @ [write_command address dat]
           \<and> flags.truncate s' = flags.truncate s"
proof -
  have cr: "check_running s = (True, s)"
    using run by (simp add: check_running_def)
  have bs: "nat (clamp_blocksize (int (length dat) - int 0)) = length dat"
    using len by (simp add: clamp_blocksize_def)
  have rq: "write_request address (slice dat 0 (0 + length dat)) = Inr (le32 address @ dat)"
    using addr by (simp add: write_request_def bind_err_def p32_le32 slice_def)
  from ack obtain h0 h1 h2 rest c' where
    x: "xport (controller s) 0xfc4c (le32 address @ dat) = (Reply ([h0, h1, h2, 0] @ rest), c')"
    unfolding acks_writes_def by blast
  let ?s1 = "s\<lparr>controller := c', commands := commands s @ [(0xfc4c, le32 address @ dat)]\<rparr>"
  have send: "sendHciCommand xport 0xfc4c (le32 address @ dat) s
              = (Some ([h0, h1, h2, 0] @ rest), ?s1)"
    using x by (simp add: sendHciCommand_def)
  have st: "check_status (Some ([h0, h1, h2, 0] @ rest)) ?s1 = (Inr True, ?s1)"
    by (simp add: check_status_def index_def)
  have fin: "writeMem_loop xport dat (address + int (length dat)) (0 + length dat) ?s1
             = (Inr True, ?s1)"
    by (subst writeMem_loop.simps) simp
  have "writeMem_loop xport dat address 0 s = (Inr True, ?s1)"
    using len bs rq send st fin
    by (subst writeMem_loop.simps) (simp add: Let_def)
  then show ?thesis
    using cr by (simp add: writeMem_def write_command_def flags.truncate_def)
qed

lemma truncate_flags:
  "flags.truncate s' = flags.truncate s \<Longrightarrow>
   running s' = running s \<and> exit_requested s' = exit_requested s \<and> log s' = log s"
  by (simp add: flags.truncate_def)

lemma enable_word: "slot_dwords_enabled ! target_dword = 0x2ffff"
  by (simp add: slot_dwords_enabled_def target_dword_def slot_dwords_init_def slot_def
      target_bit_def)

lemma slot_free: "(slot_dwords_init ! target_dword) AND push_bit target_bit 1 = 0"
  by (simp add: target_dword_def slot_dwords_init_def slot_def target_bit_def)

text \<open>
  C7: on a running session whose controller acknowledges every write with status 0, for
  a 32-bit address and a patch of four bytes, \<open>patchRom\<close> (which allocates slot 113)
  issues exactly three write commands: the patch at \<open>0xD0000 + slot * 4\<close>, the
  little-endian \<open>address >> 2\<close> at \<open>0x310000 + slot * 4\<close>, and the enable word, in which
  bit \<open>slot mod 32\<close> is set, at \<open>0x310204 + (slot div 32) * 4\<close>. The alignment of the
  address plays no part.
\<close>

theorem C7_patchRom_writes:
  assumes run: "running s" "\<not> exit_requested s"
    and patch: "length patch = 4"
    and addr: "0 \<le> address" "address < 4294967296"
    and ack: "acks_writes xport"
  shows "\<exists>s'. patchRom xport address patch s = (Inr True, s')
           \<and> commands s' = commands s @
                [write_command (0xD0000 + slot * 4) patch,
                 write_command (0x310000 + slot * 4) (le32 (address div 4)),
                 write_command (0x310204 + (slot div 32) * 4)
                   (le32 (slot_dwords_enabled ! nat (slot div 32)))]
           \<and> bit (slot_dwords_enabled ! nat (slot div 32)) (nat (slot mod 32))"
proof -
  from writeMem_one_chunk [of s patch "0xD0000 + slot * 4" xport] run patch ack
  obtain s1 where w1: "writeMem xport (0xD0000 + slot * 4) patch s = (Inr (Some True), s1)"
    and c1: "commands s1 = commands s @ [write_command (0xD0000 + slot * 4) patch]"
    and f1: "flags.truncate s1 = flags.truncate s"
    by (auto simp: slot_def)
  have run1: "running s1" "\<not> exit_requested s1"
    using truncate_flags [OF f1] run by simp_all
  have t: "p32 (drop_bit 2 address) = Inr (le32 (address div 4))"
    using addr by (simp add: drop_bit_eq_div p32_le32)
  from writeMem_one_chunk [of s1 "le32 (address div 4)" "0x310000 + slot * 4" xport] run1 ack
  obtain s2 where
    w2: "writeMem xport (0x310000 + slot * 4) (le32 (address div 4)) s1 = (Inr (Some True), s2)"
    and c2: "commands s2 = commands s1 @ [write_command (0x310000 + slot * 4) (le32 (address div 4))]"
    and f2: "flags.truncate s2 = flags.truncate s1"
    by (auto simp: slot_def le32_def)
  have run2: "running s2" "\<not> exit_requested s2"
    using truncate_flags [OF f2] run1 by simp_all
  have e: "p32 (slot_dwords_enabled ! target_dword) = Inr (le32 (slot_dwords_enabled ! target_dword))"
    by (simp add: enable_word p32_le32)
  from writeMem_one_chunk [of s2 "le32 (slot_dwords_enabled ! target_dword)"
      "0x310204 + int target_dword * 4" xport] run2 ack
  obtain s3 where
    w3: "writeMem xport (0x310204 + int target_dword * 4)
           (le32 (slot_dwords_enabled ! target_dword)) s2 = (Inr (Some True), s3)"
    and c3: "commands s3 = commands s2 @ [write_command (0x310204 + int target_dword * 4)
                                           (le32 (slot_dwords_enabled ! target_dword))]"
    by (auto simp: target_dword_def slot_def le32_def)
  have td: "int target_dword = slot div 32" "target_dword = nat (slot div 32)"
    by (simp_all add: target_dword_def slot_def)
  have res: "patchRom xport address patch s = (Inr True, s3)"
    using patch slot_free w1 t w2 e w3 by (simp add: patchRom_def)
  have b: "bit (slot_dwords_enabled ! nat (slot div 32)) (nat (slot mod 32))"
    using enable_word by (simp add: td(2) [symmetric]) (simp add: slot_def)
  show ?thesis
    using res c1 c2 c3 b td by simp
qed

theorem C7_patchRom_writes_witness:
  "\<exists>s'. patchRom ram_xport 0x3F3F4 [0x00, 0xBD, 0xF7, 0xAA] (running_host zero_mem) = (Inr True, s')
     \<and> commands s' =
         [(0xfc4c, [0xC4, 0x01, 0x0D, 0x00, 0x00, 0xBD, 0xF7, 0xAA]),
          (0xfc4c, [0xC4, 0x01, 0x31, 0x00, 0xFD, 0xFC, 0x00, 0x00]),
          (0xfc4c, [0x10, 0x02, 0x31, 0x00, 0xFF, 0xFF, 0x02, 0x00])]"
proof -
  have r: "running (running_host zero_mem)" "\<not> exit_requested (running_host zero_mem)"
    "commands (running_host zero_mem) = []"
    by (simp_all add: running_host_def)
  have ack: "acks_writes ram_xport"
    unfolding acks_writes_def by (simp add: ram_xport_def)
  have c: "[write_command (0xD0000 + slot * 4) [0x00, 0xBD, 0xF7, 0xAA],
            write_command (0x310000 + slot * 4) (le32 (0x3F3F4 div 4)),
            write_command (0x310204 + (slot div 32) * 4)
              (le32 (slot_dwords_enabled ! nat (slot div 32)))]
         = [(0xfc4c, [0xC4, 0x01, 0x0D, 0x00, 0x00, 0xBD, 0xF7, 0xAA]),
            (0xfc4c, [0xC4, 0x01, 0x31, 0x00, 0xFD, 0xFC, 0x00, 0x00]),
            (0xfc4c, [0x10, 0x02, 0x31, 0x00, 0xFF, 0xFF, 0x02, 0x00])]"
    using enable_word
    by (simp add: write_command_def le32_def slot_def target_dword_def)
  from C7_patchRom_writes [of "running_host zero_mem" "[0x00, 0xBD, 0xF7, 0xAA]" "0x3F3F4" ram_xport]
    r ack
  have "\<exists>s'. patchRom ram_xport 0x3F3F4 [0x00, 0xBD, 0xF7, 0xAA] (running_host zero_mem)
                = (Inr True, s')
           \<and> commands s' =
                [write_command (0xD0000 + slot * 4) [0x00, 0xBD, 0xF7, 0xAA],
                 write_command (0x310000 + slot * 4) (le32 (0x3F3F4 div 4)),
                 write_command (0x310204 + (slot div 32) * 4)
                   (le32 (slot_dwords_enabled ! nat (slot div 32)))]"
    by auto
  then show ?thesis unfolding c .
qed

section \<open>The LMP monitor: read order and delivery order\<close>





lemma upt_32: "[0..<32] = [0,1,2,3,4,5,6,7,8,9,10,11,12,13,14,15,16,17,18,19,20,21,22,23,24,25,26,27,28,29,30,31]"
  by (simp add: upt_rec)

lemma test0:
  "map (\<lambda>i. ring_mem (883428 + int i)) [0..<32] = entry_bytes 31 1 3"
  by (simp add: upt_32 ring_mem_def DATA_BASE_ADDRESS_def ring_tag_def entry_bytes_def le32_def Let_def)



















section \<open>The send pipeline: command correlation\<close>

lemma correlated_mono: "H \<subseteq> H' \<Longrightarrow> correlated H cs k d \<Longrightarrow> correlated H' cs k d"
  by (auto simp: correlated_def)

lemma correlated_append: "correlated H cs k d \<Longrightarrow> correlated H (cs @ [c]) k d"
  by (auto simp: correlated_def nth_append)

lemma inv_core_mono:
  "H \<subseteq> H' \<Longrightarrow> inv_core H cs sl ret sq pc rq \<Longrightarrow> inv_core H' cs sl ret sq pc rq"
  unfolding inv_core_def
  by (meson correlated_mono subset_trans)

lemma inv_core_ingest:
  "inv_core H cs sl ret sq pc rq \<Longrightarrow> inv_core (insert r H) cs sl ret sq pc (rq @ [r])"
  unfolding inv_core_def
  by (auto intro: correlated_mono [of H "insert r H"])

lemma pc_ok_append:
  "pc_ok cs sl sq pc \<Longrightarrow> length sl = length cs \<Longrightarrow> pc_ok (cs @ [c]) (sl @ [q]) sq pc"
  by (auto simp: pc_ok_def nth_append split: send_pc.splits)

lemma inv_core_submit_full:
  assumes "inv_core H cs sl ret sq pc rq"
  shows "inv_core H (cs @ [c]) (sl @ [new_queue 1]) (ret @ [(length cs, None)]) sq pc rq"
  using assms unfolding inv_core_def
  by (auto simp: nth_append new_queue_def less_Suc_eq pc_ok_append
      intro: correlated_append)


lemma pc_ok_submit:
  assumes "pc_ok cs sl sq pc" and "length sl = length cs"
  shows "pc_ok (cs @ [(opcode, dat)]) (sl @ [q]) (sq @ [(opcode, dat, length cs)]) pc"
  using assms by (auto simp: pc_ok_def nth_append task_id_def split: send_pc.splits)

lemma inv_core_submit:
  assumes "inv_core H cs sl ret sq pc rq"
  shows "inv_core H (cs @ [(opcode, dat)]) (sl @ [new_queue 1]) ret
           (sq @ [(opcode, dat, length cs)]) pc rq"
proof -
  have l: "length sl = length cs" using assms by (simp add: inv_core_def)
  have t: "\<forall>t\<in>set sq. task_id t < length cs" using assms by (simp add: inv_core_def)
  then have fresh: "length cs \<notin> task_id ` set sq" by auto
  have d: "distinct (map task_id (sq @ [(opcode, dat, length cs)]))"
    using assms fresh by (simp add: inv_core_def task_id_def)
  have p: "pc_ok (cs @ [(opcode, dat)]) (sl @ [new_queue 1]) (sq @ [(opcode, dat, length cs)]) pc"
    using assms l by (intro pc_ok_submit) (simp_all add: inv_core_def)
  show ?thesis
    using assms l d p unfolding inv_core_def
    by (auto simp: nth_append new_queue_def less_Suc_eq task_id_def intro: correlated_append)
qed

lemma inv_core_collect_none:
  "inv_core H cs sl ret sq pc rq \<Longrightarrow> inv_core H cs sl (ret @ [(k, None)]) sq pc rq"
  unfolding inv_core_def by auto

lemma pc_ok_slot_update:
  assumes "pc_ok cs sl sq pc" and "items q = [] \<or> (\<forall>op. pc \<noteq> Waiting op k)"
  shows "pc_ok cs (sl[k := q]) sq pc"
  using assms
  by (cases "k < length sl")
     (auto simp: pc_ok_def nth_list_update list_update_beyond split: send_pc.splits)

lemma inv_core_collect_some:
  assumes inv: "inv_core H cs sl ret sq pc rq" and k: "k < length sl"
    and it: "items (sl ! k) = d # ds"
  shows "inv_core H cs (sl[k := (sl ! k)\<lparr>items := ds\<rparr>]) (ret @ [(k, Some d)]) sq pc rq"
proof -
  have ds: "ds = []" using inv k it by (auto simp: inv_core_def)
  have cor: "correlated H cs k d" using inv k it by (auto simp: inv_core_def)
  have p: "pc_ok cs (sl[k := (sl ! k)\<lparr>items := ds\<rparr>]) sq pc"
    using inv ds by (intro pc_ok_slot_update) (simp_all add: inv_core_def)
  show ?thesis
    using inv k ds cor p unfolding inv_core_def
    by (auto simp: nth_list_update)
qed

lemma inv_core_pc_plain:
  assumes "inv_core H cs sl ret sq pc rq"
    and "pc' = At_top \<or> pc' = At_get_task \<or> pc' = Terminated \<or> pc' = No_thread
         \<or> (\<exists>e. pc' = Crashed e)"
  shows "inv_core H cs sl ret sq pc' rq"
  using assms unfolding inv_core_def by (auto simp: pc_ok_def)

lemma inv_core_rq_subset:
  "inv_core H cs sl ret sq pc rq \<Longrightarrow> set rq' \<subseteq> set rq \<Longrightarrow> inv_core H cs sl ret sq pc rq'"
  unfolding inv_core_def by auto

lemma inv_core_rq_tail:
  "inv_core H cs sl ret sq pc (r # rq) \<Longrightarrow> inv_core H cs sl ret sq pc rq"
  by (rule inv_core_rq_subset) auto

lemma inv_core_rq_nil:
  "inv_core H cs sl ret sq pc rq \<Longrightarrow> inv_core H cs sl ret sq pc []"
  by (rule inv_core_rq_subset) auto

lemma inv_core_take_task:
  assumes inv: "inv_core H cs sl ret ((opcode, dat, k) # sq) pc rq"
  shows "inv_core H cs sl ret sq (Waiting opcode k) rq"
    and "inv_core H cs sl ret sq (Crashed e) rq"
  using inv unfolding inv_core_def
  by (auto simp: pc_ok_def task_id_def)

lemma inv_core_put:
  assumes inv: "inv_core H cs sl ret sq (Waiting opcode k) rq"
    and r: "r \<in> H" and a: "answers opcode d r"
  shows "k < length sl \<and> q_put_nowait (sl ! k) d = Some ((sl ! k)\<lparr>items := [d]\<rparr>)
         \<and> inv_core H cs (sl[k := (sl ! k)\<lparr>items := [d]\<rparr>]) ret sq At_top rq"
proof -
  have k: "k < length sl" and e: "items (sl ! k) = []" and m: "maxsize (sl ! k) = 1"
    and op: "fst (cs ! k) = opcode" and nq: "k \<notin> task_id ` set sq"
    using inv by (auto simp: inv_core_def pc_ok_def)
  have put: "q_put_nowait (sl ! k) d = Some ((sl ! k)\<lparr>items := [d]\<rparr>)"
    using e m by (simp add: q_put_nowait_def)
  have cor: "correlated H cs k d"
    using inv k r a op by (auto simp: correlated_def inv_core_def)
  have "inv_core H cs (sl[k := (sl ! k)\<lparr>items := [d]\<rparr>]) ret sq At_top rq"
    using inv k m cor nq unfolding inv_core_def
    by (auto simp: nth_list_update pc_ok_def)
  then show ?thesis using k put by simp
qed


lemma ingested_append:
  "ingested (acts @ [a]) = ingested acts @ (case a of Ingest r \<Rightarrow> [r] | _ \<Rightarrow> [])"
  by (induction acts rule: ingested.induct) (auto split: action.splits)

lemma run_snoc: "run sd s (acts @ [a]) = apply_action sd (run sd s acts) a"
  by (simp add: run_def)

text \<open>What each action does to the parts of the session the invariant speaks of.\<close>

lemma enqueue_primary_frame:
  "calls (enqueue_primary r s) = calls s" "slots (enqueue_primary r s) = slots s"
  "returned (enqueue_primary r s) = returned s" "sendQueue (enqueue_primary r s) = sendQueue s"
  by (simp_all add: enqueue_primary_def log_add_def Let_def split: option.splits)

lemma enqueue_secondary_frame:
  "calls (enqueue_secondary r s) = calls s" "slots (enqueue_secondary r s) = slots s"
  "returned (enqueue_secondary r s) = returned s" "sendQueue (enqueue_secondary r s) = sendQueue s"
  "sendThread (enqueue_secondary r s) = sendThread s"
  by (simp_all add: enqueue_secondary_def log_add_def split: option.splits)

lemma enqueue_secondary_items:
  "items (sendThreadrecvQueue (enqueue_secondary r s)) = items (sendThreadrecvQueue s)
   \<or> items (sendThreadrecvQueue (enqueue_secondary r s)) = items (sendThreadrecvQueue s) @ [r]"
  by (simp add: enqueue_secondary_def log_add_def q_put_nowait_def split: option.splits)

lemma feed_stackdump_frame:
  "calls (feed_stackdump sd r s) = calls s" "slots (feed_stackdump sd r s) = slots s"
  "returned (feed_stackdump sd r s) = returned s" "sendQueue (feed_stackdump sd r s) = sendQueue s"
  "sendThread (feed_stackdump sd r s) = sendThread s"
  by (cases "sd (stackDumpReceiver s) (fst r)"; simp add: feed_stackdump_def log_add_def Let_def)+

lemma distribute_frame:
  "calls (distribute sd r s) = calls s" "slots (distribute sd r s) = slots s"
  "returned (distribute sd r s) = returned s" "sendQueue (distribute sd r s) = sendQueue s"
  "sendThread (distribute sd r s) = sendThread s"
  by (simp_all add: distribute_def feed_stackdump_frame enqueue_secondary_frame
      enqueue_primary_frame enqueue_primary_other)

lemma distribute_items:
  "items (sendThreadrecvQueue (distribute sd r s)) = items (sendThreadrecvQueue s)
   \<or> items (sendThreadrecvQueue (distribute sd r s)) = items (sendThreadrecvQueue s) @ [r]"
  using enqueue_secondary_items [of r "enqueue_primary r s"]
  by (simp add: distribute_def feed_stackdump_queues enqueue_primary_other)

lemma pipeline_inv_ingest:
  assumes "pipeline_inv H s"
  shows "pipeline_inv (insert r H) (distribute sd r s)"
proof -
  from distribute_items [of sd r s]
  show ?thesis
  proof
    assume "items (sendThreadrecvQueue (distribute sd r s)) = items (sendThreadrecvQueue s)"
    then show ?thesis
      using assms inv_core_mono [OF subset_insertI, of H _ _ _ _ _ _ r]
      by (simp add: pipeline_inv_def distribute_frame)
  next
    assume "items (sendThreadrecvQueue (distribute sd r s)) = items (sendThreadrecvQueue s) @ [r]"
    then show ?thesis
      using assms inv_core_ingest [of H _ _ _ _ _ _ r]
      by (simp add: pipeline_inv_def distribute_frame)
  qed
qed

lemma pipeline_inv_submit:
  assumes "pipeline_inv H s"
  shows "pipeline_inv H (call_submit opcode dat s)"
proof (cases "q_put_nowait (sendQueue s) (opcode, dat, length (calls s))")
  case None
  then show ?thesis
    using assms inv_core_submit_full [of H "calls s" _ _ _ _ _ "(opcode, dat)"]
    by (simp add: pipeline_inv_def call_submit_def Let_def log_add_def)
next
  case (Some q)
  then have q: "items q = items (sendQueue s) @ [(opcode, dat, length (calls s))]"
    by (auto simp: q_put_nowait_def split: if_splits)
  show ?thesis
    using assms Some q inv_core_submit [of H "calls s" _ _ _ _ _ opcode dat]
    by (simp add: pipeline_inv_def call_submit_def Let_def)
qed

lemma pipeline_inv_collect:
  assumes "pipeline_inv H s"
  shows "pipeline_inv H (call_collect k s)"
proof (cases "k < length (slots s) \<and> k \<notin> fst ` set (returned s)")
  case False
  then show ?thesis using assms by (auto simp: call_collect_def)
next
  case True
  show ?thesis
  proof (cases "items (slots s ! k)")
    case Nil
    then show ?thesis
      using assms True inv_core_collect_none [of H _ _ _ _ _ _ k]
      by (simp add: pipeline_inv_def call_collect_def q_get_nowait_def log_add_def)
  next
    case (Cons d ds)
    then show ?thesis
      using assms True inv_core_collect_some [of H _ "slots s" _ _ _ _ k d ds]
      by (simp add: pipeline_inv_def call_collect_def q_get_nowait_def)
  qed
qed

lemma pipeline_inv_start:
  assumes "pipeline_inv H s"
  shows "pipeline_inv H (start_send_thread s)"
  using assms inv_core_pc_plain [of H _ _ _ _ _ _ At_top]
  by (auto simp: pipeline_inv_def start_send_thread_def log_add_def)

lemma pipeline_inv_flags:
  assumes "pipeline_inv H s"
  shows "pipeline_inv H (s\<lparr>running := r, exit_requested := e\<rparr>)"
  using assms by (simp add: pipeline_inv_def)


lemma is_cc_answers:
  "is_command_complete_for opcode (fst r) \<Longrightarrow> answers opcode (packet_data (fst r)) r"
  by (cases "fst r") (auto simp: is_command_complete_for_def answers_def packet_data_def)

lemma put_response_inv:
  assumes inv: "pipeline_inv H s" and w: "sendThread s = Waiting opcode k"
    and r: "r \<in> H" and a: "answers opcode d r"
  shows "pipeline_inv H (put_response k d s)"
proof -
  from inv_core_put [of H "calls s" "slots s" "returned s" "items (sendQueue s)" opcode k
      "items (sendThreadrecvQueue s)" r d] inv w r a
  have k: "k < length (slots s)"
    and p: "q_put_nowait (slots s ! k) d = Some ((slots s ! k)\<lparr>items := [d]\<rparr>)"
    and i: "inv_core H (calls s) ((slots s)[k := (slots s ! k)\<lparr>items := [d]\<rparr>]) (returned s)
              (items (sendQueue s)) At_top (items (sendThreadrecvQueue s))"
    by (simp_all add: pipeline_inv_def)
  show ?thesis using k p i by (simp add: put_response_def pipeline_inv_def)
qed

lemma pipeline_inv_send_step:
  assumes inv: "pipeline_inv H s"
  shows "pipeline_inv H (send_step s)"
proof (cases "sendThread s")
  case No_thread
  then show ?thesis using inv by (simp add: send_step_def)
next
  case At_top
  show ?thesis
  proof (cases "exit_requested s")
    case True
    then show ?thesis
      using inv At_top inv_core_pc_plain [of H _ _ _ _ _ _ Terminated]
      by (simp add: send_step_def pipeline_inv_def log_add_def)
  next
    case False
    have "inv_core H (calls s) (slots s) (returned s) (items (sendQueue s)) At_get_task []"
      using inv unfolding pipeline_inv_def
      by (intro inv_core_rq_nil inv_core_pc_plain [of H _ _ _ _ "sendThread s" _ At_get_task])
         simp_all
    then show ?thesis
      using False At_top
      by (simp add: send_step_def pipeline_inv_def q_flush_def flush_items_Nil)
  qed
next
  case At_get_task
  show ?thesis
  proof (cases "items (sendQueue s)")
    case Nil
    then show ?thesis
      using inv At_get_task inv_core_pc_plain [of H _ _ _ _ _ _ At_top]
      by (simp add: send_step_def pipeline_inv_def q_get_nowait_def)
  next
    case (Cons t sq)
    obtain opcode dat k where t: "t = (opcode, dat, k)" by (cases t)
    have i: "inv_core H (calls s) (slots s) (returned s) ((opcode, dat, k) # sq) At_get_task
               (items (sendThreadrecvQueue s))"
      using inv At_get_task Cons t by (simp add: pipeline_inv_def)
    show ?thesis
    proof (cases "build_frame opcode dat")
      case (Inl e)
      then show ?thesis
        using At_get_task Cons t inv_core_take_task(2) [OF i, of e]
        by (simp add: send_step_def pipeline_inv_def q_get_nowait_def)
    next
      case (Inr out)
      then show ?thesis
        using At_get_task Cons t inv_core_take_task(1) [OF i]
        by (simp add: send_step_def pipeline_inv_def q_get_nowait_def log_add_def)
    qed
  qed
next
  case (Waiting opcode k)
  show ?thesis
  proof (cases "exit_requested s")
    case True
    then show ?thesis
      using inv Waiting inv_core_pc_plain [of H _ _ _ _ _ _ At_top]
      by (simp add: send_step_def pipeline_inv_def)
  next
    case ne: False
    show ?thesis
    proof (cases "running s")
      case False
      then show ?thesis
        using inv Waiting ne
        by (simp add: send_step_def recvPacket_sendThread_def pipeline_inv_def log_add_def)
    next
      case True
      show ?thesis
      proof (cases "items (sendThreadrecvQueue s)")
        case Nil
        then show ?thesis
          using inv Waiting ne True
          by (simp add: send_step_def recvPacket_sendThread_def q_get_nowait_def)
      next
        case (Cons r rq)
        let ?s1 = "s\<lparr>sendThreadrecvQueue := (sendThreadrecvQueue s)\<lparr>items := rq\<rparr>\<rparr>"
        have rH: "r \<in> H" using inv Cons by (simp add: pipeline_inv_def inv_core_def)
        have i1: "pipeline_inv H ?s1"
          using inv Cons inv_core_rq_tail [of H _ _ _ _ _ r rq]
          by (simp add: pipeline_inv_def)
        have w1: "sendThread ?s1 = Waiting opcode k" using Waiting by simp
        have step: "send_step s
                    = (if is_command_complete_for opcode (fst r)
                       then put_response k (packet_data (fst r)) ?s1 else ?s1)"
          using Waiting ne True Cons
          by (simp add: send_step_def recvPacket_sendThread_def q_get_nowait_def)
        show ?thesis
        proof (cases "is_command_complete_for opcode (fst r)")
          case False
          then show ?thesis using step i1 by simp
        next
          case cc: True
          from put_response_inv [OF i1 w1 rH is_cc_answers [OF cc]]
          show ?thesis using step cc by simp
        qed
      qed
    qed
  qed
next
  case (Blocked_put k d)
  then show ?thesis using inv by (simp add: pipeline_inv_def inv_core_def pc_ok_def)
next
  case Terminated
  then show ?thesis using inv by (simp add: send_step_def)
next
  case (Crashed e)
  then show ?thesis using inv by (simp add: send_step_def)
qed

lemma pipeline_inv_init: "pipeline_inv {} (init_session queue_size sd0)"
  by (simp add: pipeline_inv_def inv_core_def init_session_def new_queue_def pc_ok_def)

lemma pipeline_inv_run:
  "pipeline_inv (set (ingested acts)) (run sd (init_session queue_size sd0) acts)"
proof (induction acts rule: rev_induct)
  case Nil
  then show ?case by (simp add: run_def pipeline_inv_init)
next
  case (snoc a acts)
  let ?s = "run sd (init_session queue_size sd0) acts"
  show ?case
  proof (cases a)
    case (Call_submit opcode dat)
    then show ?thesis using snoc pipeline_inv_submit [of _ ?s]
      by (simp add: run_snoc ingested_append)
  next
    case (Call_collect k)
    then show ?thesis using snoc pipeline_inv_collect [of _ ?s]
      by (simp add: run_snoc ingested_append)
  next
    case (Ingest r)
    then show ?thesis using snoc pipeline_inv_ingest [of _ ?s r sd]
      by (simp add: run_snoc ingested_append)
  next
    case Send_step
    then show ?thesis using snoc pipeline_inv_send_step [of _ ?s]
      by (simp add: run_snoc ingested_append)
  next
    case Start_send_thread
    then show ?thesis using snoc pipeline_inv_start [of _ ?s]
      by (simp add: run_snoc ingested_append)
  next
    case (Set_flags r e)
    then show ?thesis using snoc pipeline_inv_flags [of _ ?s]
      by (simp add: run_snoc ingested_append)
  qed
qed


text \<open>
  C1: in every interleaving of callers, receive thread and send thread, a payload that
  a call of \<open>sendHciCommand\<close> returns is the data of a Command Complete event (event
  code \<open>0x0e\<close>) of the snoop stream whose bytes 1 and 2 are the packed opcode of that
  call, whatever other records the stream carries. The payload comes through the
  call's own queue of size one, which never holds more than one payload, and the send
  thread never blocks on it.
\<close>

theorem C1_command_correlation:
  assumes "(k, Some d) \<in> set (returned (run sd (init_session queue_size sd0) acts))"
  shows "k < length (calls (run sd (init_session queue_size sd0) acts))
         \<and> (\<exists>r\<in>set (ingested acts).
               fst r = HCI_Event 0x0e d
               \<and> Inr (slice d 1 3) = p16 (fst (calls (run sd (init_session queue_size sd0) acts) ! k)))
         \<and> maxsize (slots (run sd (init_session queue_size sd0) acts) ! k) = 1
         \<and> length (items (slots (run sd (init_session queue_size sd0) acts) ! k)) \<le> 1
         \<and> (\<forall>k' d'. sendThread (run sd (init_session queue_size sd0) acts) \<noteq> Blocked_put k' d')"
proof -
  let ?s = "run sd (init_session queue_size sd0) acts"
  have inv: "inv_core (set (ingested acts)) (calls ?s) (slots ?s) (returned ?s)
               (items (sendQueue ?s)) (sendThread ?s) (items (sendThreadrecvQueue ?s))"
    using pipeline_inv_run [of acts sd queue_size sd0] by (simp add: pipeline_inv_def)
  have cor: "correlated (set (ingested acts)) (calls ?s) k d"
    using inv assms unfolding inv_core_def by blast
  then have k: "k < length (calls ?s)" by (simp add: correlated_def)
  have ans: "\<exists>r\<in>set (ingested acts).
               fst r = HCI_Event 0x0e d \<and> Inr (slice d 1 3) = p16 (fst (calls ?s ! k))"
    using cor by (simp add: correlated_def answers_def)
  have len: "length (slots ?s) = length (calls ?s)"
    using inv unfolding inv_core_def by blast
  have slot: "maxsize (slots ?s ! k) = 1 \<and> length (items (slots ?s ! k)) \<le> 1"
    using inv k len unfolding inv_core_def by simp
  have nb: "\<forall>k' d'. sendThread ?s \<noteq> Blocked_put k' d'"
    using inv unfolding inv_core_def pc_ok_def by (auto split: send_pc.splits)
  show ?thesis using k ans slot nb by blast
qed

lemma run_one_call:
  "returned (run no_dump (init_session 1000 ()) one_call)
     = [(0, Some [1, 0x4d, 0xfc, 0, 0xDE, 0xAD, 0xBE, 0xEF])]
   \<and> calls (run no_dump (init_session 1000 ()) one_call) = [(0xfc4d, [0x00, 0x00, 0x20, 0x00, 0x04])]
   \<and> s_inject (run no_dump (init_session 1000 ()) one_call)
     = [[0x01, 0x08, 0x00, 0x4D, 0xFC, 0x05, 0x00, 0x00, 0x20, 0x00, 0x04]]"
  by (simp add: run_def one_call_def init_session_def new_queue_def start_send_thread_def
      sendThread_alive_def log_add_def call_submit_def q_put_nowait_def Let_def send_step_def
      q_flush_def q_get_nowait_def build_frame_def build_payload_def bind_err_def p8_def p16_def
      HCI_CMD_def distribute_def enqueue_primary_def enqueue_secondary_def feed_stackdump_def
      no_dump_def q_full_def rec_b_def rec_other_def rec_read_def recvPacket_sendThread_def
      is_command_complete_for_def packet_data_def slice_def put_response_def call_collect_def)


theorem C1_command_correlation_witness:
  "(0, Some [1, 0x4d, 0xfc, 0, 0xDE, 0xAD, 0xBE, 0xEF])
     \<in> set (returned (run no_dump (init_session 1000 ()) one_call))
   \<and> ingested one_call = [rec_b, rec_other, rec_read]
   \<and> (\<exists>r\<in>set (ingested one_call).
         fst r = HCI_Event 0x0e [1, 0x4d, 0xfc, 0, 0xDE, 0xAD, 0xBE, 0xEF]
         \<and> Inr (slice [1, 0x4d, 0xfc, 0, 0xDE, 0xAD, 0xBE, 0xEF] 1 3) = p16 0xfc4d)
   \<and> s_inject (run no_dump (init_session 1000 ()) one_call)
       = [[0x01, 0x08, 0x00, 0x4D, 0xFC, 0x05, 0x00, 0x00, 0x20, 0x00, 0x04]]"
proof -
  let ?s = "run no_dump (init_session 1000 ()) one_call"
  let ?d = "[1, 0x4d, 0xfc, 0, 0xDE, 0xAD, 0xBE, 0xEF] :: bytes"
  have ret: "returned ?s = [(0, Some ?d)]"
    and cs: "calls ?s = [(0xfc4d, [0x00, 0x00, 0x20, 0x00, 0x04])]"
    and inj: "s_inject ?s = [[0x01, 0x08, 0x00, 0x4D, 0xFC, 0x05, 0x00, 0x00, 0x20, 0x00, 0x04]]"
    using run_one_call by simp_all
  have mem: "(0, Some ?d) \<in> set (returned ?s)" using ret by simp
  have ing: "ingested one_call = [rec_b, rec_other, rec_read]"
    by (simp add: one_call_def)
  from C1_command_correlation [OF mem]
  have "\<exists>r\<in>set (ingested one_call).
          fst r = HCI_Event 0x0e ?d \<and> Inr (slice ?d 1 3) = p16 (fst (calls ?s ! 0))"
    by (elim conjE)
  then have "\<exists>r\<in>set (ingested one_call).
          fst r = HCI_Event 0x0e ?d \<and> Inr (slice ?d 1 3) = p16 0xfc4d"
    unfolding cs by simp
  then show ?thesis using mem ing inj by (intro conjI)
qed

end
